theory Spec2Isabelle
  imports Main "HOL-Library.Sublist"
begin

section \<open>Python values and exceptions\<close>

text \<open>
  Every \<^verbatim>\<open>raise\<close> of the Python code, and every exception a collaborator may throw,
  is a value of \<open>exn\<close>; a fallible computation returns \<open>exn + 'a\<close> with \<open>Inl\<close> for the
  exception. \<open>HttpError\<close> carries \<^verbatim>\<open>str(error)\<close>; \<open>OtherError\<close> stands for every exception
  class that is not \<^verbatim>\<open>googleapiclient.errors.HttpError\<close> (a transport failure, a refresh
  failure of the credentials, an attribute error of a library).
\<close>

datatype exn =
    IndexError
  | KeyError string
  | ValueError string
  | HttpError string
  | OtherError string

definition and_then :: "exn + 'a \<Rightarrow> ('a \<Rightarrow> exn + 'b) \<Rightarrow> exn + 'b" where
  "and_then r f = (case r of Inl e \<Rightarrow> Inl e | Inr v \<Rightarrow> f v)"

subsection \<open>Strings\<close>

text \<open>
  A \<open>char\<close> is read as the Unicode code point of the same number (0 to 255).
  \<^verbatim>\<open>str.lower()\<close> maps \<^verbatim>\<open>A-Z\<close> and the capital letters of Latin-1
  (\<^verbatim>\<open>U+00C0-U+00DE\<close> without the multiplication sign \<^verbatim>\<open>U+00D7\<close>) to the code point 32
  above and leaves every other code point below 256 alone.
\<close>

definition char_lower :: "char \<Rightarrow> char" where
  "char_lower c =
     (let n = (of_char c :: nat)
      in if (65 \<le> n \<and> n \<le> 90) \<or> (192 \<le> n \<and> n \<le> 222 \<and> n \<noteq> 215)
         then char_of (n + 32) else c)"

definition str_lower :: "string \<Rightarrow> string" where
  "str_lower s = map char_lower s"

text \<open>\<^verbatim>\<open>needle in haystack\<close> on strings: the needle occurs as a contiguous run.\<close>

fun str_contains :: "string \<Rightarrow> string \<Rightarrow> bool" where
  "str_contains needle [] = (needle = [])"
| "str_contains needle (c # cs) = (prefix needle (c # cs) \<or> str_contains needle cs)"

text \<open>\<^verbatim>\<open>sep.join(xs)\<close>.\<close>

fun str_join :: "string \<Rightarrow> string list \<Rightarrow> string" where
  "str_join sep [] = []"
| "str_join sep [x] = x"
| "str_join sep (x # y # ys) = x @ sep @ str_join sep (y # ys)"

text \<open>
  \<^verbatim>\<open>json.dumps\<close> of a string (with the default \<^verbatim>\<open>ensure_ascii=True\<close>): the string in
  double quotes, with the quote and the backslash escaped, the five short escapes, and
  \<^verbatim>\<open>\u00xx\<close> (lower-case hexadecimal) for every other code point outside
  \<^verbatim>\<open>0x20 .. 0x7e\<close>.
\<close>

definition hex_digit :: "nat \<Rightarrow> char" where
  "hex_digit n = ''0123456789abcdef'' ! (n mod 16)"

definition json_escape_char :: "char \<Rightarrow> string" where
  "json_escape_char c =
     (let n = (of_char c :: nat)
      in if n = 34 then [CHR 0x5C, CHR 0x22]
         else if n = 92 then [CHR 0x5C, CHR 0x5C]
         else if n = 10 then [CHR 0x5C, CHR ''n'']
         else if n = 13 then [CHR 0x5C, CHR ''r'']
         else if n = 9 then [CHR 0x5C, CHR ''t'']
         else if n = 8 then [CHR 0x5C, CHR ''b'']
         else if n = 12 then [CHR 0x5C, CHR ''f'']
         else if 32 \<le> n \<and> n \<le> 126 then [c]
         else [CHR 0x5C, CHR ''u'', CHR ''0'', CHR ''0'', hex_digit (n div 16), hex_digit n])"

definition json_dumps :: "string \<Rightarrow> string" where
  "json_dumps s = [CHR 0x22] @ concat (map json_escape_char s) @ [CHR 0x22]"

section \<open>The agent state (\<^verbatim>\<open>backend/agent.py\<close>)\<close>

text \<open>
  One entry of \<^verbatim>\<open>additional_kwargs["tool_calls"]\<close>: the dictionary
  \<^verbatim>\<open>{"id": ..., "function": {"name": ..., "arguments": ...}}\<close> of the chat-completion
  format. The three fields are the three paths the code reads.
\<close>

record tool_call =
  tc_id :: string
  fn_name :: string
  fn_arguments :: string

text \<open>
  A message is one of the three \<^verbatim>\<open>BaseMessage\<close> classes the code uses. A human or an
  assistant message has its \<^verbatim>\<open>content\<close> and its \<^verbatim>\<open>additional_kwargs\<close>, a dictionary;
  the values are typed as lists of tool calls, the type of the one key the code reads.
  A \<^verbatim>\<open>ToolMessage\<close> is built by the code from a \<^verbatim>\<open>tool_call_id\<close> and a
  \<^verbatim>\<open>content\<close>, its \<^verbatim>\<open>additional_kwargs\<close> being the empty default.
\<close>

type_synonym kwargs = "string \<rightharpoonup> tool_call list"

datatype message =
    HumanMessage string kwargs
  | AIMessage string kwargs
  | ToolMessage string string

fun additional_kwargs :: "message \<Rightarrow> kwargs" where
  "additional_kwargs (HumanMessage c kw) = kw"
| "additional_kwargs (AIMessage c kw) = kw"
| "additional_kwargs (ToolMessage i c) = Map.empty"

text \<open>\<^verbatim>\<open>class AgentState(TypedDict)\<close>; \<open>None\<close> is Python's \<^verbatim>\<open>None\<close>.\<close>

record agent_state =
  messages :: "message list"
  summary :: "string option"
  start_time :: "string option"
  end_time :: "string option"
  attendees :: "string list option"
  calendar_check_result :: "string option"
  action_needed :: "string option"

text \<open>
  What a node returns: a dictionary with some of the state's keys. A field is \<open>None\<close>
  when the key is not in the dictionary and \<open>Some v\<close> when it is there with value \<open>v\<close>
  (which may itself be Python's \<^verbatim>\<open>None\<close>).
\<close>

record state_update =
  upd_messages :: "message list option"
  upd_summary :: "string option option"
  upd_start_time :: "string option option"
  upd_end_time :: "string option option"
  upd_attendees :: "string list option option"
  upd_calendar_check_result :: "string option option"
  upd_action_needed :: "string option option"

definition no_update :: state_update where
  "no_update =
     \<lparr>upd_messages = None, upd_summary = None, upd_start_time = None, upd_end_time = None,
      upd_attendees = None, upd_calendar_check_result = None, upd_action_needed = None\<rparr>"

text \<open>
  How the graph folds a node's update into the state it keeps: \<^verbatim>\<open>messages\<close> is declared
  \<^verbatim>\<open>Annotated[list[BaseMessage], operator.add]\<close>, so an update is appended; every other
  key has no reducer, so an update replaces the value. A key the update does not have
  keeps its value. The node itself works on its own copy of the state: an assignment
  to \<^verbatim>\<open>state[...]\<close> inside a node reaches the kept state only through the returned
  dictionary.
\<close>

definition overwrite :: "'a \<Rightarrow> 'a option \<Rightarrow> 'a" where
  "overwrite old u = (case u of None \<Rightarrow> old | Some v \<Rightarrow> v)"

definition apply_update :: "agent_state \<Rightarrow> state_update \<Rightarrow> agent_state" where
  "apply_update st u =
     \<lparr>messages = (case upd_messages u of None \<Rightarrow> messages st | Some ms \<Rightarrow> messages st @ ms),
      summary = overwrite (summary st) (upd_summary u),
      start_time = overwrite (start_time st) (upd_start_time u),
      end_time = overwrite (end_time st) (upd_end_time u),
      attendees = overwrite (attendees st) (upd_attendees u),
      calendar_check_result = overwrite (calendar_check_result st) (upd_calendar_check_result u),
      action_needed = overwrite (action_needed st) (upd_action_needed u)\<rparr>"

section \<open>The nodes\<close>

text \<open>\<^verbatim>\<open>state['messages'][-1]\<close>: an \<^verbatim>\<open>IndexError\<close> on the empty list.\<close>

definition last_message :: "agent_state \<Rightarrow> exn + message" where
  "last_message st = (if messages st = [] then Inl IndexError else Inr (last (messages st)))"

text \<open>\<^verbatim>\<open>should_continue\<close>: the test is the presence of the key.\<close>

definition should_continue :: "agent_state \<Rightarrow> exn + string" where
  "should_continue st =
     and_then (last_message st) (\<lambda>m.
       if ''tool_calls'' \<in> dom (additional_kwargs m) then Inr ''continue'' else Inr ''end'')"

text \<open>
  The reasoning backend \<^verbatim>\<open>llm.bind_tools(tools).invoke(messages)\<close> is a parameter: from
  the transcript it returns the content and the \<^verbatim>\<open>additional_kwargs\<close> of an
  \<^verbatim>\<open>AIMessage\<close>, or raises.
\<close>

type_synonym chat_model = "message list \<Rightarrow> exn + (string \<times> kwargs)"

definition call_model :: "chat_model \<Rightarrow> agent_state \<Rightarrow> exn + state_update" where
  "call_model llm st =
     and_then (llm (messages st)) (\<lambda>(c, kw).
       Inr (no_update\<lparr>upd_messages := Some [AIMessage c kw]\<rparr>))"

text \<open>
  \<^verbatim>\<open>tool_executor.invoke([tool_call])\<close> is a parameter too: the executor of
  \<^verbatim>\<open>langgraph.prebuilt\<close> is not part of the repository. It gets the one-element list
  the code passes and returns the tool's string, or raises.
\<close>

type_synonym executor = "tool_call list \<Rightarrow> exn + string"


text \<open>
  The body of the \<^verbatim>\<open>for\<close> loop of \<^verbatim>\<open>call_tool\<close> for one tool call: the accumulator is
  the list \<^verbatim>\<open>outputs\<close> and the node's own copy of the state.
\<close>

definition fold_tool_result :: "tool_call \<Rightarrow> string \<Rightarrow> agent_state \<Rightarrow> agent_state" where
  "fold_tool_result tc result st =
     (if fn_name tc = ''check_availability'' then
        st\<lparr>calendar_check_result := Some result,
           action_needed :=
             Some (if str_contains ''free'' (str_lower result)
                   then ''propose_slots'' else ''ask_for_new_time'')\<rparr>
      else if fn_name tc = ''book_meeting'' then
        st\<lparr>action_needed := Some ''confirm_booking''\<rparr>
      else st)"

fun tool_loop ::
  "executor \<Rightarrow> tool_call list \<Rightarrow> message list \<times> agent_state \<Rightarrow> exn + (message list \<times> agent_state)"
where
  "tool_loop ex [] (outputs, st) = Inr (outputs, st)"
| "tool_loop ex (tc # tcs) (outputs, st) =
     (case ex [tc] of
        Inl e \<Rightarrow> Inl e
      | Inr result \<Rightarrow>
          tool_loop ex tcs
            (outputs @ [ToolMessage (tc_id tc) (json_dumps result)],
             fold_tool_result tc result st))"

text \<open>\<^verbatim>\<open>last_message.additional_kwargs.get("tool_calls", [])\<close>.\<close>

definition requested_tool_calls :: "message \<Rightarrow> tool_call list" where
  "requested_tool_calls m =
     (case additional_kwargs m ''tool_calls'' of None \<Rightarrow> [] | Some tcs \<Rightarrow> tcs)"

text \<open>
  \<^verbatim>\<open>call_tool\<close> up to its \<^verbatim>\<open>return\<close>: the outputs and the node's copy of the state
  after the loop.
\<close>

definition call_tool_body :: "executor \<Rightarrow> agent_state \<Rightarrow> exn + (message list \<times> agent_state)" where
  "call_tool_body ex st =
     and_then (last_message st) (\<lambda>m. tool_loop ex (requested_tool_calls m) ([], st))"

text \<open>\<^verbatim>\<open>return {"messages": outputs, "action_needed": state.get('action_needed')}\<close>.\<close>

definition call_tool :: "executor \<Rightarrow> agent_state \<Rightarrow> exn + state_update" where
  "call_tool ex st =
     and_then (call_tool_body ex st) (\<lambda>(outputs, st').
       Inr (no_update\<lparr>upd_messages := Some outputs,
                      upd_action_needed := Some (action_needed st')\<rparr>))"

section \<open>The graph\<close>

text \<open>
  The workflow has the two nodes \<^verbatim>\<open>call_model\<close> and \<^verbatim>\<open>call_tool\<close>, the edge from
  \<^verbatim>\<open>START\<close> to \<^verbatim>\<open>call_model\<close>, the conditional edges of \<^verbatim>\<open>call_model\<close> through
  \<^verbatim>\<open>should_continue\<close> and \<^verbatim>\<open>{"continue": "call_tool", "end": END}\<close>, and the edge from
  \<^verbatim>\<open>call_tool\<close> back to \<^verbatim>\<open>call_model\<close>.
\<close>

datatype node = CallModel | CallTool | END

definition path_map :: "(string \<times> node) list" where
  "path_map = [(''continue'', CallTool), (''end'', END)]"

record collaborators =
  llm :: chat_model
  tool_executor :: executor

text \<open>
  One node of the graph runs: its update is folded into the kept state, and the edges
  give the next node. The conditional edge reads the state after the update.
\<close>

fun run_node :: "collaborators \<Rightarrow> node \<Rightarrow> agent_state \<Rightarrow> exn + (node \<times> agent_state)" where
  "run_node env CallModel st =
     and_then (call_model (llm env) st) (\<lambda>u.
       let st' = apply_update st u in
       and_then (should_continue st') (\<lambda>r.
         case map_of path_map r of
           None \<Rightarrow> Inl (KeyError r)
         | Some n \<Rightarrow> Inr (n, st')))"
| "run_node env CallTool st =
     and_then (call_tool (tool_executor env) st) (\<lambda>u. Inr (CallModel, apply_update st u))"
| "run_node env END st = Inr (END, st)"

text \<open>
  A run of the compiled graph from a node. The source sets no bound on the number of
  cycles, so the run takes fuel, one unit for each node it runs: it ends in \<open>Halted\<close>
  with the final state when it reaches \<^verbatim>\<open>END\<close>, in \<open>Raised\<close> when a node raises, and
  in \<open>OutOfFuel\<close> when the fuel is used up before either. The first component lists the
  nodes that ran, in order.
\<close>

datatype outcome = Halted agent_state | Raised exn | OutOfFuel agent_state

fun run :: "collaborators \<Rightarrow> nat \<Rightarrow> node \<Rightarrow> agent_state \<Rightarrow> node list \<times> outcome" where
  "run env 0 n st = (if n = END then ([], Halted st) else ([], OutOfFuel st))"
| "run env (Suc k) n st =
     (if n = END then ([], Halted st)
      else case run_node env n st of
             Inl e \<Rightarrow> ([n], Raised e)
           | Inr (n', st') \<Rightarrow> (case run env k n' st' of (tr, out) \<Rightarrow> (n # tr, out)))"

text \<open>\<^verbatim>\<open>app.invoke(inputs)\<close>: the run from the entry point.\<close>

definition invoke :: "collaborators \<Rightarrow> nat \<Rightarrow> agent_state \<Rightarrow> node list \<times> outcome" where
  "invoke env fuel st = run env fuel CallModel st"

section \<open>The calendar tools (\<^verbatim>\<open>backend/tools.py\<close>)\<close>

text \<open>
  The calendar client \<^verbatim>\<open>get_calendar_service()\<close> returns is a collaborator: its three
  requests are fields of a record, each returning the decoded response or raising.
  A busy slot has the keys \<^verbatim>\<open>start\<close> and \<^verbatim>\<open>end\<close>; the response of the free/busy
  query is read at \<^verbatim>\<open>['calendars'][calendar_id]['busy']\<close>, here a lookup by calendar
  id that raises \<^verbatim>\<open>KeyError\<close> when the path is not there.
\<close>

record slot =
  slot_start :: string
  slot_end :: string

record freebusy_body =
  timeMin :: string
  timeMax :: string
  timeZone :: string
  items :: "string list"

record event_time =
  dateTime :: string
  ev_timeZone :: string

record event_body =
  ev_summary :: string
  ev_description :: string
  ev_start :: event_time
  ev_end :: event_time
  ev_reminders_useDefault :: bool
  ev_reminders_overrides :: "(string \<times> nat) list"
  ev_attendees :: "string list option"

record calendar_service =
  calendars_get :: "string \<Rightarrow> exn + (string \<rightharpoonup> string)"
  freebusy_query :: "freebusy_body \<Rightarrow> exn + (string \<rightharpoonup> slot list)"
  events_insert :: "string \<Rightarrow> event_body \<Rightarrow> exn + (string \<rightharpoonup> string)"

text \<open>
  \<^verbatim>\<open>try: body except HttpError as error: return handler(error)\<close>: only an
  \<^verbatim>\<open>HttpError\<close> is turned into a returned string; any other exception leaves the
  function.
\<close>

definition except_HttpError :: "exn + string \<Rightarrow> (string \<Rightarrow> string) \<Rightarrow> exn + string" where
  "except_HttpError body handler =
     (case body of Inl (HttpError err) \<Rightarrow> Inr (handler err) | _ \<Rightarrow> body)"

text \<open>Lines 69 to 75: the text built from the busy slots.\<close>

definition slot_text :: "slot \<Rightarrow> string" where
  "slot_text s = ''From '' @ slot_start s @ '' to '' @ slot_end s"

definition availability_text :: "slot list \<Rightarrow> string" where
  "availability_text busy_slots =
     (if busy_slots = [] then ''The calendar is free during this time.''
      else ''The calendar is busy during the following times: ''
           @ str_join '', '' (map slot_text busy_slots)
           @ ''. Please suggest a different time.'')"

text \<open>
  The body of the \<^verbatim>\<open>try\<close> of \<^verbatim>\<open>check_calendar_availability\<close>. The outcome of
  \<^verbatim>\<open>get_calendar_service()\<close> and the two functions of \<^verbatim>\<open>datetime\<close> are parameters.
\<close>

definition check_calendar_availability_try ::
  "exn + calendar_service \<Rightarrow> (string \<Rightarrow> exn + 'dt) \<Rightarrow> ('dt \<Rightarrow> string) \<Rightarrow> string \<Rightarrow> string
     \<Rightarrow> exn + string"
where
  "check_calendar_availability_try get_calendar_service fromisoformat isoformat start_t end_t =
     and_then get_calendar_service (\<lambda>service.
     let calendar_id = ''primary'' in
     and_then (calendars_get service calendar_id) (\<lambda>calendar_info.
     let tz = (case calendar_info ''timeZone'' of None \<Rightarrow> ''UTC'' | Some z \<Rightarrow> z) in
     and_then (fromisoformat start_t) (\<lambda>start.
     and_then (fromisoformat end_t) (\<lambda>end_dt.
     let body = \<lparr>timeMin = isoformat start, timeMax = isoformat end_dt, timeZone = tz,
                 items = [calendar_id]\<rparr> in
     and_then (freebusy_query service body) (\<lambda>free_busy_query.
     case free_busy_query calendar_id of
       None \<Rightarrow> Inl (KeyError calendar_id)
     | Some busy_slots \<Rightarrow> Inr (availability_text busy_slots))))))"

definition check_calendar_availability ::
  "exn + calendar_service \<Rightarrow> (string \<Rightarrow> exn + 'dt) \<Rightarrow> ('dt \<Rightarrow> string) \<Rightarrow> string \<Rightarrow> string
     \<Rightarrow> exn + string"
where
  "check_calendar_availability get_calendar_service fromisoformat isoformat start_t end_t =
     except_HttpError
       (check_calendar_availability_try get_calendar_service fromisoformat isoformat start_t end_t)
       (\<lambda>err. ''An error occurred while checking availability: '' @ err)"

text \<open>
  \<^verbatim>\<open>create_google_calendar_event\<close>. \<^verbatim>\<open>if attendees:\<close> holds for a list that is neither
  \<^verbatim>\<open>None\<close> nor empty; \<^verbatim>\<open>event.get('htmlLink')\<close> formats as \<^verbatim>\<open>None\<close> when the key is
  missing.
\<close>

definition create_google_calendar_event_try ::
  "exn + calendar_service \<Rightarrow> string \<Rightarrow> string \<Rightarrow> string \<Rightarrow> string \<Rightarrow> string list option
     \<Rightarrow> exn + string"
where
  "create_google_calendar_event_try get_calendar_service summ start_t end_t descr atts =
     and_then get_calendar_service (\<lambda>service.
     let event =
       \<lparr>ev_summary = summ, ev_description = descr,
        ev_start = \<lparr>dateTime = start_t, ev_timeZone = ''Asia/Kolkata''\<rparr>,
        ev_end = \<lparr>dateTime = end_t, ev_timeZone = ''Asia/Kolkata''\<rparr>,
        ev_reminders_useDefault = False,
        ev_reminders_overrides = [(''email'', 24 * 60), (''popup'', 10)],
        ev_attendees = None\<rparr>;
       event' = (case atts of
                   None \<Rightarrow> event
                 | Some l \<Rightarrow> if l = [] then event else event\<lparr>ev_attendees := Some l\<rparr>) in
     and_then (events_insert service ''primary'' event') (\<lambda>created.
     Inr (''Event created: '' @ (case created ''htmlLink'' of None \<Rightarrow> ''None'' | Some l \<Rightarrow> l))))"

definition create_google_calendar_event ::
  "exn + calendar_service \<Rightarrow> string \<Rightarrow> string \<Rightarrow> string \<Rightarrow> string \<Rightarrow> string list option
     \<Rightarrow> exn + string"
where
  "create_google_calendar_event get_calendar_service summ start_t end_t descr atts =
     except_HttpError
       (create_google_calendar_event_try get_calendar_service summ start_t end_t descr atts)
       (\<lambda>err. ''An error occurred while creating the event: '' @ err)"

section \<open>Properties of transcripts and traces\<close>

fun is_ai :: "message \<Rightarrow> bool" where
  "is_ai (AIMessage c kw) = True"
| "is_ai m = False"

text \<open>The \<^verbatim>\<open>tool_call_id\<close> of a result message.\<close>

fun result_id :: "message \<Rightarrow> string option" where
  "result_id (ToolMessage i c) = Some i"
| "result_id m = None"

text \<open>
  \<open>answered ms\<close>: every assistant message of \<open>ms\<close> is followed at once by one result
  message for each tool call it requests, with the ids of the calls in the order of the
  calls, and, when it requests at least one call, by an assistant message after them.
\<close>

definition answered_here :: "message \<Rightarrow> message list \<Rightarrow> bool" where
  "answered_here m ms =
     (let tcs = requested_tool_calls m; rest = drop (length tcs) ms
      in map result_id (take (length tcs) ms) = map (\<lambda>tc. Some (tc_id tc)) tcs
         \<and> (tcs = [] \<or> (rest \<noteq> [] \<and> is_ai (hd rest))))"

fun answered :: "message list \<Rightarrow> bool" where
  "answered [] = True"
| "answered (m # ms) = ((if is_ai m then answered_here m ms else True) \<and> answered ms)"



text \<open>
  The shape of what one run appends to the transcript. \<open>turn_shape True\<close> is the shape
  after a run that reached \<^verbatim>\<open>END\<close>: cycles of an assistant message with the key
  \<^verbatim>\<open>tool_calls\<close> and the results of its calls, then one assistant message without the
  key. \<open>turn_shape False\<close> also admits the transcript of a run that was cut short.
\<close>

function turn_shape :: "bool \<Rightarrow> message list \<Rightarrow> bool" where
  "turn_shape complete [] = (\<not> complete)"
| "turn_shape complete (HumanMessage c kw # ms) = False"
| "turn_shape complete (ToolMessage i c # ms) = False"
| "turn_shape complete (AIMessage c kw # ms) =
     (case kw ''tool_calls'' of
        None \<Rightarrow> ms = []
      | Some tcs \<Rightarrow>
          (\<not> complete \<and> ms = []) \<or>
          (map result_id (take (length tcs) ms) = map (\<lambda>tc. Some (tc_id tc)) tcs
           \<and> turn_shape complete (drop (length tcs) ms)))"
  by pat_completeness auto
termination
  by (relation "measure (\<lambda>(b, ms). length ms)") auto

section \<open>Collaborators and inputs of the worked examples\<close>

text \<open>
  A tool executor over the three registered tools. What it does with a name that is not
  registered is its parameter: the registry lookup of the library decides that, not
  the code of the repository. \<open>reporting_executor\<close> answers such a name with a text
  that reports the unknown tool and never raises on a request; \<open>raising_executor\<close>
  raises for it and stands in where only registered tools are requested.
\<close>

definition stub_executor :: "(string \<Rightarrow> exn + string) \<Rightarrow> executor" where
  "stub_executor on_unknown tcs =
     (case tcs of
        [tc] \<Rightarrow>
          if fn_name tc = ''check_availability'' then Inr ''The calendar is free during this time.''
          else if fn_name tc = ''book_meeting'' then Inr ''Event created: https://calendar.example/e1''
          else if fn_name tc = ''get_current_datetime'' then Inr ''2025-06-28T09:00:00''
          else on_unknown (fn_name tc)
      | _ \<Rightarrow> Inl (OtherError ''one invocation expected''))"

definition raising_executor :: executor where
  "raising_executor = stub_executor (\<lambda>name. Inl (KeyError name))"

definition reporting_executor :: executor where
  "reporting_executor = stub_executor (\<lambda>name. Inr (name @ '' is not a valid tool''))"

definition check_call :: tool_call where
  "check_call = \<lparr>tc_id = ''call_1'', fn_name = ''check_availability'', fn_arguments = ''{}''\<rparr>"

definition delete_call :: tool_call where
  "delete_call = \<lparr>tc_id = ''call_2'', fn_name = ''delete_event'', fn_arguments = ''{}''\<rparr>"

definition book_call :: tool_call where
  "book_call = \<lparr>tc_id = ''call_3'', fn_name = ''book_meeting'', fn_arguments = ''{}''\<rparr>"

definition user_state :: "message list \<Rightarrow> agent_state" where
  "user_state ms =
     \<lparr>messages = ms, summary = None, start_time = None, end_time = None, attendees = None,
      calendar_check_result = None, action_needed = None\<rparr>"

text \<open>
  Four reasoning backends: one that asks for the availability check once and then
  replies; one that replies at once; one that asks for the check once and from then on
  returns the key \<^verbatim>\<open>tool_calls\<close> with an empty list; and one that returns the key
  with an empty list once and then replies.
\<close>

definition check_then_reply :: chat_model where
  "check_then_reply ms =
     (if length ms = 1 then Inr ([], [''tool_calls'' \<mapsto> [check_call]])
      else Inr (''Yes, you are free then!'', Map.empty))"

definition reply_at_once :: chat_model where
  "reply_at_once ms = Inr (''Hello!'', Map.empty)"


definition empty_list_then_reply :: chat_model where
  "empty_list_then_reply ms =
     (if length ms = 1 then Inr (''Let me see.'', [''tool_calls'' \<mapsto> []])
      else Inr (''Hello!'', Map.empty))"

text \<open>
  Calendar clients: one whose calendar reports the given busy slots, one whose free/busy
  query and event insertion fail with the given exception.
\<close>

definition reporting_service :: "slot list \<Rightarrow> calendar_service" where
  "reporting_service busy_slots =
     \<lparr>calendars_get = (\<lambda>cid. Inr [''timeZone'' \<mapsto> ''Asia/Kolkata'']),
      freebusy_query = (\<lambda>body. Inr [''primary'' \<mapsto> busy_slots]),
      events_insert = (\<lambda>cid ev. Inr [''htmlLink'' \<mapsto> ''https://calendar.example/e1''])\<rparr>"

definition failing_service :: "exn \<Rightarrow> calendar_service" where
  "failing_service e =
     \<lparr>calendars_get = (\<lambda>cid. Inr [''timeZone'' \<mapsto> ''Asia/Kolkata'']),
      freebusy_query = (\<lambda>body. Inl e),
      events_insert = (\<lambda>cid ev. Inl e)\<rparr>"

text \<open>A stand-in for \<^verbatim>\<open>datetime.fromisoformat\<close> that accepts every non-empty string.\<close>

definition parse_any :: "string \<Rightarrow> exn + string" where
  "parse_any s = (if s = [] then Inl (ValueError ''Invalid isoformat string'') else Inr s)"

section \<open>Lemmas about the nodes\<close>

lemmas node_eval =
  call_model_def call_tool_def call_tool_body_def and_then_def last_message_def should_continue_def
  requested_tool_calls_def fold_tool_result_def apply_update_def overwrite_def no_update_def
  path_map_def stub_executor_def raising_executor_def reporting_executor_def
  check_call_def delete_call_def book_call_def user_state_def

lemma apply_messages_update:
  "apply_update st (no_update\<lparr>upd_messages := Some ms\<rparr>) = st\<lparr>messages := messages st @ ms\<rparr>"
  by (simp add: apply_update_def no_update_def overwrite_def)

lemma apply_tool_update:
  "apply_update st (no_update\<lparr>upd_messages := Some ms, upd_action_needed := Some a\<rparr>)
     = st\<lparr>messages := messages st @ ms, action_needed := a\<rparr>"
  by (simp add: apply_update_def no_update_def overwrite_def)

lemma fold_tool_result_frame:
  "messages (fold_tool_result tc r st) = messages st"
  "summary (fold_tool_result tc r st) = summary st"
  "start_time (fold_tool_result tc r st) = start_time st"
  "end_time (fold_tool_result tc r st) = end_time st"
  "attendees (fold_tool_result tc r st) = attendees st"
  by (simp_all add: fold_tool_result_def)

lemma tool_loop_outputs:
  "tool_loop ex tcs (outs, st) = Inr (outs', st') \<Longrightarrow>
     \<exists>rs. outs' = outs @ rs \<and>
          list_all2 (\<lambda>tc m. \<exists>r. ex [tc] = Inr r \<and> m = ToolMessage (tc_id tc) (json_dumps r)) tcs rs"
proof (induction tcs arbitrary: outs st)
  case Nil
  then show ?case by simp
next
  case (Cons tc tcs)
  from Cons.prems obtain r where r: "ex [tc] = Inr r"
    by (cases "ex [tc]") auto
  with Cons.prems have "tool_loop ex tcs
        (outs @ [ToolMessage (tc_id tc) (json_dumps r)], fold_tool_result tc r st) = Inr (outs', st')"
    by simp
  from Cons.IH[OF this] obtain rs where
    rs: "outs' = (outs @ [ToolMessage (tc_id tc) (json_dumps r)]) @ rs"
      "list_all2 (\<lambda>tc m. \<exists>r. ex [tc] = Inr r \<and> m = ToolMessage (tc_id tc) (json_dumps r)) tcs rs"
    by blast
  show ?case
  proof (intro exI conjI)
    show "outs' = outs @ (ToolMessage (tc_id tc) (json_dumps r) # rs)" using rs(1) by simp
    show "list_all2 (\<lambda>tc m. \<exists>r. ex [tc] = Inr r \<and> m = ToolMessage (tc_id tc) (json_dumps r))
            (tc # tcs) (ToolMessage (tc_id tc) (json_dumps r) # rs)"
      using r rs(2) by simp
  qed
qed


lemma tool_loop_raises:
  "tc \<in> set tcs \<Longrightarrow> ex [tc] = Inl e \<Longrightarrow> \<exists>e'. tool_loop ex tcs (outs, st) = Inl e'"
proof (induction tcs arbitrary: outs st)
  case Nil
  then show ?case by simp
next
  case (Cons a tcs)
  show ?case
  proof (cases "ex [a]")
    case (Inl x)
    then show ?thesis by simp
  next
    case (Inr r)
    with Cons.prems have "tc \<in> set tcs" by auto
    from Cons.IH[OF this Cons.prems(2)] Inr show ?thesis by simp
  qed
qed

lemma tool_loop_frame:
  "tool_loop ex tcs (outs, st) = Inr (outs', st') \<Longrightarrow>
     messages st' = messages st \<and> summary st' = summary st \<and> start_time st' = start_time st \<and>
     end_time st' = end_time st \<and> attendees st' = attendees st"
proof (induction tcs arbitrary: outs st)
  case Nil
  then show ?case by simp
next
  case (Cons tc tcs)
  from Cons.prems obtain r where r: "ex [tc] = Inr r"
    by (cases "ex [tc]") auto
  with Cons.prems have "tool_loop ex tcs
        (outs @ [ToolMessage (tc_id tc) (json_dumps r)], fold_tool_result tc r st) = Inr (outs', st')"
    by simp
  from Cons.IH[OF this] show ?case by (simp add: fold_tool_result_frame)
qed

lemma call_tool_update_form:
  assumes "call_tool ex st = Inr u"
  shows "\<exists>outs st'. call_tool_body ex st = Inr (outs, st') \<and>
           u = no_update\<lparr>upd_messages := Some outs, upd_action_needed := Some (action_needed st')\<rparr>"
  using assms by (auto simp: call_tool_def and_then_def split: sum.splits)

lemma run_END: "run env k END st = ([], Halted st)"
  by (cases k) simp_all

lemma should_continue_appended:
  "should_continue (st\<lparr>messages := messages st @ [AIMessage c kw]\<rparr>)
     = Inr (if ''tool_calls'' \<in> dom kw then ''continue'' else ''end'')"
  by (simp add: should_continue_def last_message_def and_then_def)

lemma run_node_model:
  "llm env (messages st) = Inr (c, kw) \<Longrightarrow>
     run_node env CallModel st =
       Inr (if ''tool_calls'' \<in> dom kw then CallTool else END,
            st\<lparr>messages := messages st @ [AIMessage c kw]\<rparr>)"
  by (simp add: call_model_def and_then_def apply_messages_update should_continue_appended
      path_map_def)

lemma run_node_model_raises:
  "llm env (messages st) = Inl e \<Longrightarrow> run_node env CallModel st = Inl e"
  by (simp add: call_model_def and_then_def)

lemma run_node_model_cases:
  assumes "run_node env CallModel st = Inr (n', st1)"
  shows "\<exists>c kw. llm env (messages st) = Inr (c, kw) \<and>
           n' = (if ''tool_calls'' \<in> dom kw then CallTool else END) \<and>
           st1 = st\<lparr>messages := messages st @ [AIMessage c kw]\<rparr>"
proof (cases "llm env (messages st)")
  case (Inl e)
  from run_node_model_raises[OF Inl] assms show ?thesis by (simp del: run_node.simps)
next
  case (Inr r)
  obtain c kw where "r = (c, kw)" by (cases r)
  with Inr have "llm env (messages st) = Inr (c, kw)" by simp
  with assms run_node_model[OF this] show ?thesis by auto
qed

lemma run_node_tool_cases:
  assumes "run_node env CallTool st = Inr (n', st1)"
  shows "messages st \<noteq> [] \<and> n' = CallModel \<and>
         (\<exists>outs a. st1 = st\<lparr>messages := messages st @ outs, action_needed := a\<rparr> \<and>
            list_all2 (\<lambda>tc m. \<exists>r. tool_executor env [tc] = Inr r \<and>
                                 m = ToolMessage (tc_id tc) (json_dumps r))
              (requested_tool_calls (last (messages st))) outs)"
proof -
  from assms obtain u where u: "call_tool (tool_executor env) st = Inr u"
    and n': "n' = CallModel" and st1: "st1 = apply_update st u"
    by (auto simp: and_then_def split: sum.splits)
  from call_tool_update_form[OF u] obtain outs and st2 :: agent_state where
    body: "call_tool_body (tool_executor env) st = Inr (outs, st2)" and
    uform: "u = no_update\<lparr>upd_messages := Some outs, upd_action_needed := Some (action_needed st2)\<rparr>"
    by blast
  from body have ne: "messages st \<noteq> []"
    by (auto simp: call_tool_body_def last_message_def and_then_def split: if_splits)
  with body have "tool_loop (tool_executor env) (requested_tool_calls (last (messages st))) ([], st)
                    = Inr (outs, st2)"
    by (simp add: call_tool_body_def last_message_def and_then_def)
  from tool_loop_outputs[OF this]
  have "list_all2 (\<lambda>tc m. \<exists>r. tool_executor env [tc] = Inr r \<and>
                                 m = ToolMessage (tc_id tc) (json_dumps r))
              (requested_tool_calls (last (messages st))) outs"
    by simp
  moreover from st1 uform
  have "st1 = st\<lparr>messages := messages st @ outs, action_needed := action_needed st2\<rparr>"
    by (simp add: apply_tool_update)
  ultimately show ?thesis using ne n' by blast
qed

lemma results_ids:
  "list_all2 (\<lambda>tc m. \<exists>r. ex [tc] = Inr r \<and> m = ToolMessage (tc_id tc) (json_dumps r)) tcs outs
     \<Longrightarrow> map result_id outs = map (\<lambda>tc. Some (tc_id tc)) tcs"
  by (induction tcs outs rule: list_all2_induct) auto


section \<open>Lemmas about runs\<close>

lemma turn_shape_results:
  assumes "map result_id rs = map (\<lambda>tc. Some (tc_id tc)) tcs" and "kw ''tool_calls'' = Some tcs"
    and "turn_shape b app"
  shows "turn_shape b (AIMessage c kw # rs @ app)"
proof -
  from assms(1) have "length rs = length tcs" by (metis length_map)
  with assms show ?thesis by simp
qed

lemma run_shape:
  "run env fuel n st = (tr, out) \<Longrightarrow> out = (if b then Halted st' else OutOfFuel st') \<Longrightarrow>
     (n = CallModel \<longrightarrow> (\<exists>app. messages st' = messages st @ app \<and> turn_shape b app)) \<and>
     (n = CallTool \<longrightarrow>
        (\<not> b \<and> messages st' = messages st) \<or>
        (\<exists>rs app. messages st' = messages st @ rs @ app \<and>
           map result_id rs = map (\<lambda>tc. Some (tc_id tc)) (requested_tool_calls (last (messages st))) \<and>
           turn_shape b app))"
proof (induction fuel arbitrary: n st tr out)
  case 0
  then show ?case by (cases b) (auto split: if_splits)
next
  case (Suc k)
  show ?case
  proof (cases n)
    case END
    then show ?thesis by simp
  next
    case CallModel
    show ?thesis
    proof (cases "run_node env CallModel st")
      case (Inl e)
      with Suc.prems CallModel show ?thesis by (cases b) auto
    next
      case (Inr p)
      obtain n' st1 where p: "p = (n', st1)" by (cases p)
      from run_node_model_cases[of env st n' st1] Inr p obtain c kw where
        n': "n' = (if ''tool_calls'' \<in> dom kw then CallTool else END)" and
        st1: "st1 = st\<lparr>messages := messages st @ [AIMessage c kw]\<rparr>"
        by auto
      obtain tr' out' where r: "run env k n' st1 = (tr', out')" by (cases "run env k n' st1")
      from Suc.prems(1) CallModel Inr p r have out': "out' = out" by simp
      show ?thesis
      proof (cases "kw ''tool_calls''")
        case None
        with n' have "n' = END" by (auto simp: dom_def)
        with r out' have "out = Halted st1" by (simp add: run_END)
        with Suc.prems(2) have "b" "st' = st1" by (auto split: if_splits)
        with st1 None CallModel show ?thesis by simp
      next
        case (Some tcs)
        with n' have "n' = CallTool" by (auto simp: dom_def)
        with Suc.IH[OF r] out' Suc.prems(2)
        have "(\<not> b \<and> messages st' = messages st1) \<or>
          (\<exists>rs app. messages st' = messages st1 @ rs @ app \<and>
             map result_id rs = map (\<lambda>tc. Some (tc_id tc)) (requested_tool_calls (last (messages st1))) \<and>
             turn_shape b app)" by simp
        then show ?thesis
        proof
          assume "\<not> b \<and> messages st' = messages st1"
          with st1 Some have "messages st' = messages st @ [AIMessage c kw]"
            "turn_shape b [AIMessage c kw]" by simp_all
          with CallModel show ?thesis by blast
        next
          assume "\<exists>rs app. messages st' = messages st1 @ rs @ app \<and>
             map result_id rs = map (\<lambda>tc. Some (tc_id tc)) (requested_tool_calls (last (messages st1))) \<and>
             turn_shape b app"
          then obtain rs app where m: "messages st' = messages st1 @ rs @ app"
            and ids: "map result_id rs = map (\<lambda>tc. Some (tc_id tc)) (requested_tool_calls (last (messages st1)))"
            and sh: "turn_shape b app" by blast
          from st1 Some have "requested_tool_calls (last (messages st1)) = tcs"
            by (simp add: requested_tool_calls_def)
          with ids have "map result_id rs = map (\<lambda>tc. Some (tc_id tc)) tcs" by simp
          then have "turn_shape b (AIMessage c kw # rs @ app)"
            using Some sh by (rule turn_shape_results)
          moreover from m st1 have "messages st' = messages st @ (AIMessage c kw # rs @ app)" by simp
          ultimately show ?thesis using CallModel by blast
        qed
      qed
    qed
  next
    case CallTool
    show ?thesis
    proof (cases "run_node env CallTool st")
      case (Inl e)
      with Suc.prems CallTool show ?thesis by (cases b) auto
    next
      case (Inr p)
      obtain n' st1 where p: "p = (n', st1)" by (cases p)
      from run_node_tool_cases[of env st n' st1] Inr p obtain outs a where
        n': "n' = CallModel" and
        st1: "st1 = st\<lparr>messages := messages st @ outs, action_needed := a\<rparr>" and
        la: "list_all2 (\<lambda>tc m. \<exists>r. tool_executor env [tc] = Inr r \<and>
                                 m = ToolMessage (tc_id tc) (json_dumps r))
              (requested_tool_calls (last (messages st))) outs"
        by auto
      obtain tr' out' where r: "run env k n' st1 = (tr', out')" by (cases "run env k n' st1")
      from Suc.prems(1) CallTool Inr p r have out': "out' = out" by simp
      from Suc.IH[OF r] out' Suc.prems(2) n'
      obtain app where "messages st' = messages st1 @ app" "turn_shape b app" by auto
      with st1 have "messages st' = messages st @ outs @ app" "turn_shape b app" by simp_all
      with results_ids[OF la] CallTool show ?thesis by blast
    qed
  qed
qed

lemma turn_shape_hd: "turn_shape True app \<Longrightarrow> app \<noteq> [] \<and> is_ai (hd app)"
proof (cases app)
  case Nil
  moreover assume "turn_shape True app"
  ultimately show ?thesis by simp
next
  case (Cons m ms)
  moreover assume "turn_shape True app"
  ultimately show ?thesis by (cases m) auto
qed

lemma ids_not_ai:
  "map result_id rs = map (\<lambda>tc. Some (tc_id tc)) tcs \<Longrightarrow> \<forall>m\<in>set rs. \<not> is_ai m"
proof (induction rs arbitrary: tcs)
  case Nil
  then show ?case by simp
next
  case (Cons r rs)
  then obtain t ts where "tcs = t # ts" by (cases tcs) auto
  with Cons show ?case by (cases r) auto
qed

lemma answered_skip: "\<forall>m\<in>set rs. \<not> is_ai m \<Longrightarrow> answered (rs @ ms) = answered ms"
  by (induction rs) auto


lemma turn_shape_answered: "turn_shape b app \<Longrightarrow> b \<Longrightarrow> answered app"
proof (induction b app rule: turn_shape.induct)
  case (1 b)
  then show ?case by simp
next
  case (2 b c kw ms)
  then show ?case by simp
next
  case (3 b i c ms)
  then show ?case by simp
next
  case (4 b c kw ms)
  then have b: "b = True" by simp
  show ?case
  proof (cases "kw ''tool_calls''")
    case None
    with 4 show ?thesis by (simp add: answered_here_def requested_tool_calls_def)
  next
    case (Some tcs)
    with "4.prems" b have ids: "map result_id (take (length tcs) ms) = map (\<lambda>tc. Some (tc_id tc)) tcs"
      and sh: "turn_shape True (drop (length tcs) ms)" by auto
    from "4.IH"[OF Some] sh b have a: "answered (drop (length tcs) ms)" by simp
    from ids_not_ai[OF ids] have "answered (take (length tcs) ms @ drop (length tcs) ms)
        = answered (drop (length tcs) ms)" by (rule answered_skip)
    with a have "answered ms" by simp
    moreover from turn_shape_hd[OF sh] ids Some
    have "answered_here (AIMessage c kw) ms"
      by (simp add: answered_here_def requested_tool_calls_def)
    ultimately show ?thesis by simp
  qed
qed


lemma turn_shape_last:
  "turn_shape b app \<Longrightarrow> b \<Longrightarrow>
     app \<noteq> [] \<and> (\<exists>c kw. last app = AIMessage c kw \<and> ''tool_calls'' \<notin> dom kw)"
proof (induction b app rule: turn_shape.induct)
  case (1 b)
  then show ?case by simp
next
  case (2 b c kw ms)
  then show ?case by simp
next
  case (3 b i c ms)
  then show ?case by simp
next
  case (4 b c kw ms)
  then have b: "b = True" by simp
  show ?case
  proof (cases "kw ''tool_calls''")
    case None
    with 4 show ?thesis by (auto simp: dom_def)
  next
    case (Some tcs)
    with "4.prems" b have sh: "turn_shape True (drop (length tcs) ms)" by auto
    from "4.IH"[OF Some] sh b obtain c' kw' where
      ne: "drop (length tcs) ms \<noteq> []" and
      l: "last (drop (length tcs) ms) = AIMessage c' kw'" "''tool_calls'' \<notin> dom kw'" by blast
    from ne have "ms \<noteq> []" by auto
    moreover from ne have "last ms = last (drop (length tcs) ms)" by (simp add: last_drop)
    ultimately show ?thesis using l by simp
  qed
qed

lemma answered_here_append:
  assumes "answered_here m ms"
  shows "answered_here m (ms @ ys)"
proof -
  let ?tcs = "requested_tool_calls m"
  from assms have ids: "map result_id (take (length ?tcs) ms) = map (\<lambda>tc. Some (tc_id tc)) ?tcs"
    and nxt: "?tcs = [] \<or> (drop (length ?tcs) ms \<noteq> [] \<and> is_ai (hd (drop (length ?tcs) ms)))"
    by (simp_all add: answered_here_def Let_def)
  from ids have "length (take (length ?tcs) ms) = length ?tcs" by (metis length_map)
  then have le: "length ?tcs \<le> length ms" by simp
  with ids have "map result_id (take (length ?tcs) (ms @ ys)) = map (\<lambda>tc. Some (tc_id tc)) ?tcs"
    by simp
  moreover from nxt le
  have "?tcs = [] \<or> (drop (length ?tcs) (ms @ ys) \<noteq> [] \<and> is_ai (hd (drop (length ?tcs) (ms @ ys))))"
    by auto
  ultimately show ?thesis by (simp add: answered_here_def Let_def)
qed

lemma answered_append: "answered xs \<Longrightarrow> answered ys \<Longrightarrow> answered (xs @ ys)"
  by (induction xs) (auto simp: answered_here_append)


lemma run_frame:
  "run env fuel n st = (tr, out) \<Longrightarrow> out = Halted st' \<or> out = OutOfFuel st' \<Longrightarrow>
     summary st' = summary st \<and> start_time st' = start_time st \<and> end_time st' = end_time st \<and>
     attendees st' = attendees st \<and> calendar_check_result st' = calendar_check_result st"
proof (induction fuel arbitrary: n st tr out)
  case 0
  then show ?case by (auto split: if_splits)
next
  case (Suc k)
  show ?case
  proof (cases "n = END")
    case True
    with Suc.prems show ?thesis by auto
  next
    case notEND: False
    show ?thesis
    proof (cases "run_node env n st")
      case (Inl e)
      with Suc.prems notEND show ?thesis by auto
    next
      case (Inr p)
      obtain n' st1 where p: "p = (n', st1)" by (cases p)
      obtain tr' out' where r: "run env k n' st1 = (tr', out')" by (cases "run env k n' st1")
      from Suc.prems(1) notEND Inr p r have "out' = out" by simp
      with Suc.IH[OF r] Suc.prems(2)
      have ih: "summary st' = summary st1 \<and> start_time st' = start_time st1 \<and>
        end_time st' = end_time st1 \<and> attendees st' = attendees st1 \<and>
        calendar_check_result st' = calendar_check_result st1" by simp
      have "summary st1 = summary st \<and> start_time st1 = start_time st \<and>
        end_time st1 = end_time st \<and> attendees st1 = attendees st \<and>
        calendar_check_result st1 = calendar_check_result st"
      proof (cases n)
        case CallModel
        with Inr p run_node_model_cases[of env st n' st1] show ?thesis by auto
      next
        case CallTool
        with Inr p run_node_tool_cases[of env st n' st1] show ?thesis by auto
      next
        case END
        with notEND show ?thesis by simp
      qed
      with ih show ?thesis by simp
    qed
  qed
qed

section \<open>The loop controller\<close>

text \<open>
  Claim C1, as the code has it. After the decision step the assistant message is
  appended in every case. The run ends at once, returning the state to the caller,
  exactly when the \<^verbatim>\<open>additional_kwargs\<close> of the message do not have the key
  \<^verbatim>\<open>tool_calls\<close>; when the key is there, whatever list it holds, control passes to
  the execution node. Every run that returns to the caller ends on an assistant
  message without the key.
\<close>

theorem decision_step_routes_on_key_presence:
  "(llm env (messages st) = Inr (c, kw) \<longrightarrow>
      (''tool_calls'' \<notin> dom kw \<longrightarrow>
         run env (Suc k) CallModel st =
           ([CallModel], Halted (st\<lparr>messages := messages st @ [AIMessage c kw]\<rparr>)))
      \<and> (''tool_calls'' \<in> dom kw \<longrightarrow>
         run_node env CallModel st =
           Inr (CallTool, st\<lparr>messages := messages st @ [AIMessage c kw]\<rparr>)))
   \<and> (run env fuel CallModel st = (tr, Halted st') \<longrightarrow>
        messages st' \<noteq> [] \<and>
        (\<exists>c' kw'. last (messages st') = AIMessage c' kw' \<and> ''tool_calls'' \<notin> dom kw'))"
proof (intro conjI impI)
  assume r: "llm env (messages st) = Inr (c, kw)" and "''tool_calls'' \<notin> dom kw"
  with run_node_model[OF r]
  have "run_node env CallModel st = Inr (END, st\<lparr>messages := messages st @ [AIMessage c kw]\<rparr>)"
    by simp
  then show "run env (Suc k) CallModel st =
           ([CallModel], Halted (st\<lparr>messages := messages st @ [AIMessage c kw]\<rparr>))"
    by (simp add: run_END del: run_node.simps)
next
  assume r: "llm env (messages st) = Inr (c, kw)" and "''tool_calls'' \<in> dom kw"
  with run_node_model[OF r]
  show "run_node env CallModel st = Inr (CallTool, st\<lparr>messages := messages st @ [AIMessage c kw]\<rparr>)"
    by simp
next
  assume h: "run env fuel CallModel st = (tr, Halted st')"
  from run_shape[OF h, of True st'] obtain app where
    app: "messages st' = messages st @ app" "turn_shape True app" by auto
  from turn_shape_last[OF app(2)] app(1)
  show "messages st' \<noteq> []"
    "\<exists>c' kw'. last (messages st') = AIMessage c' kw' \<and> ''tool_calls'' \<notin> dom kw'"
    by auto
qed

theorem decision_step_routes_on_key_presence_witness:
  "reply_at_once (messages (user_state [HumanMessage ''Hi'' Map.empty])) = Inr (''Hello!'', Map.empty)
   \<and> run \<lparr>llm = reply_at_once, tool_executor = raising_executor\<rparr> (Suc 0) CallModel
        (user_state [HumanMessage ''Hi'' Map.empty])
      = ([CallModel],
         Halted (user_state [HumanMessage ''Hi'' Map.empty, AIMessage ''Hello!'' Map.empty]))
   \<and> check_then_reply (messages (user_state [HumanMessage ''Hi'' Map.empty]))
        = Inr ([], [''tool_calls'' \<mapsto> [check_call]])
   \<and> run_node \<lparr>llm = check_then_reply, tool_executor = raising_executor\<rparr> CallModel
        (user_state [HumanMessage ''Hi'' Map.empty])
      = Inr (CallTool,
             user_state [HumanMessage ''Hi'' Map.empty,
                         AIMessage [] [''tool_calls'' \<mapsto> [check_call]]])
   \<and> last (messages (user_state [HumanMessage ''Hi'' Map.empty, AIMessage ''Hello!'' Map.empty]))
      = AIMessage ''Hello!'' Map.empty"
  using decision_step_routes_on_key_presence
          [of "\<lparr>llm = reply_at_once, tool_executor = raising_executor\<rparr>"
              "user_state [HumanMessage ''Hi'' Map.empty]" "''Hello!''" Map.empty 0
              "Suc 0" "[CallModel]"
              "user_state [HumanMessage ''Hi'' Map.empty, AIMessage ''Hello!'' Map.empty]"]
        decision_step_routes_on_key_presence
          [of "\<lparr>llm = check_then_reply, tool_executor = raising_executor\<rparr>"
              "user_state [HumanMessage ''Hi'' Map.empty]" "[]" "[''tool_calls'' \<mapsto> [check_call]]"]
  by (simp add: reply_at_once_def check_then_reply_def user_state_def)

text \<open>
  The claim as the specification words it (the run ends exactly when the requested
  actions are empty) fails where the key is present with the empty list: the requested
  actions are empty and the next node is the execution node.
\<close>

theorem empty_request_list_continues:
  "requested_tool_calls (AIMessage ''Let me see.'' [''tool_calls'' \<mapsto> []]) = []
   \<and> run_node \<lparr>llm = empty_list_then_reply, tool_executor = raising_executor\<rparr> CallModel
        (user_state [HumanMessage ''Hi'' Map.empty])
      = Inr (CallTool,
             user_state [HumanMessage ''Hi'' Map.empty,
                         AIMessage ''Let me see.'' [''tool_calls'' \<mapsto> []]])"
  by (simp add: node_eval empty_list_then_reply_def)

text \<open>
  Claim C10. For every state with a last message, \<^verbatim>\<open>should_continue\<close> returns
  \<^verbatim>\<open>"continue"\<close> when the \<^verbatim>\<open>additional_kwargs\<close> of that message have the key
  \<^verbatim>\<open>tool_calls\<close> and \<^verbatim>\<open>"end"\<close> when they do not; the path map sends the first to
  the execution node and the second to \<^verbatim>\<open>END\<close>. When the key holds the empty list
  the requested calls are empty, as they are without the key, and still the execution
  node runs: it returns an update with no result message and the value of
  \<^verbatim>\<open>action_needed\<close> it was given, so the execution step leaves the state as it is and
  hands over to the decision node. The presence of the key decides, not the emptiness
  of the list.
\<close>

theorem should_continue_tests_key_presence:
  assumes "messages st \<noteq> []"
  shows "should_continue st =
           Inr (if ''tool_calls'' \<in> dom (additional_kwargs (last (messages st)))
                then ''continue'' else ''end'')
         \<and> map_of path_map ''continue'' = Some CallTool
         \<and> map_of path_map ''end'' = Some END
         \<and> (additional_kwargs (last (messages st)) ''tool_calls'' = Some tcs \<longrightarrow>
              should_continue st = Inr ''continue''
              \<and> (tcs = [] \<longrightarrow>
                   requested_tool_calls (last (messages st)) = []
                   \<and> call_tool ex st =
                       Inr (no_update\<lparr>upd_messages := Some [],
                                      upd_action_needed := Some (action_needed st)\<rparr>)
                   \<and> run_node env CallTool st = Inr (CallModel, st)))
         \<and> (additional_kwargs (last (messages st)) ''tool_calls'' = None \<longrightarrow>
              should_continue st = Inr ''end''
              \<and> requested_tool_calls (last (messages st)) = [])"
  using assms
  by (auto simp: should_continue_def last_message_def and_then_def path_map_def
      call_tool_def call_tool_body_def requested_tool_calls_def apply_tool_update)

theorem should_continue_tests_key_presence_witness:
  "messages (user_state [HumanMessage ''Hi'' Map.empty,
                         AIMessage ''Let me see.'' [''tool_calls'' \<mapsto> []]]) \<noteq> []
   \<and> additional_kwargs
        (last (messages (user_state [HumanMessage ''Hi'' Map.empty,
                                     AIMessage ''Let me see.'' [''tool_calls'' \<mapsto> []]])))
        ''tool_calls'' = Some []
   \<and> should_continue (user_state [HumanMessage ''Hi'' Map.empty,
                                   AIMessage ''Let me see.'' [''tool_calls'' \<mapsto> []]])
      = Inr ''continue''
   \<and> call_tool raising_executor
        (user_state [HumanMessage ''Hi'' Map.empty,
                     AIMessage ''Let me see.'' [''tool_calls'' \<mapsto> []]])
      = Inr (no_update\<lparr>upd_messages := Some [], upd_action_needed := Some None\<rparr>)
   \<and> run_node \<lparr>llm = empty_list_then_reply, tool_executor = raising_executor\<rparr> CallTool
        (user_state [HumanMessage ''Hi'' Map.empty,
                     AIMessage ''Let me see.'' [''tool_calls'' \<mapsto> []]])
      = Inr (CallModel,
             user_state [HumanMessage ''Hi'' Map.empty,
                         AIMessage ''Let me see.'' [''tool_calls'' \<mapsto> []]])
   \<and> messages (user_state [HumanMessage ''Hi'' Map.empty,
                           AIMessage ''Hello!'' Map.empty]) \<noteq> []
   \<and> additional_kwargs
        (last (messages (user_state [HumanMessage ''Hi'' Map.empty,
                                     AIMessage ''Hello!'' Map.empty])))
        ''tool_calls'' = None
   \<and> should_continue (user_state [HumanMessage ''Hi'' Map.empty,
                                   AIMessage ''Hello!'' Map.empty])
      = Inr ''end''
   \<and> requested_tool_calls (AIMessage ''Hello!'' Map.empty) = []
   \<and> requested_tool_calls (AIMessage ''Let me see.'' [''tool_calls'' \<mapsto> []]) = []"
  using should_continue_tests_key_presence
          [of "user_state [HumanMessage ''Hi'' Map.empty,
                           AIMessage ''Let me see.'' [''tool_calls'' \<mapsto> []]]"
              "[]" raising_executor
              "\<lparr>llm = empty_list_then_reply, tool_executor = raising_executor\<rparr>"]
        should_continue_tests_key_presence
          [of "user_state [HumanMessage ''Hi'' Map.empty, AIMessage ''Hello!'' Map.empty]"
              "[]" raising_executor
              "\<lparr>llm = empty_list_then_reply, tool_executor = raising_executor\<rparr>"]
  by (simp add: user_state_def and_then_def apply_tool_update requested_tool_calls_def)

section \<open>The execution node\<close>

text \<open>
  Claim C4. The update \<^verbatim>\<open>call_tool\<close> returns has the keys \<^verbatim>\<open>messages\<close> and
  \<^verbatim>\<open>action_needed\<close> and no other key, so the execution step leaves the fields
  \<^verbatim>\<open>summary\<close>, \<^verbatim>\<open>start_time\<close>, \<^verbatim>\<open>end_time\<close>, \<^verbatim>\<open>attendees\<close> and
  \<^verbatim>\<open>calendar_check_result\<close> of the kept state as they were.
\<close>

theorem call_tool_frame:
  "(call_tool ex st = Inr u \<longrightarrow>
      upd_messages u \<noteq> None \<and> upd_action_needed u \<noteq> None \<and>
      upd_summary u = None \<and> upd_start_time u = None \<and> upd_end_time u = None \<and>
      upd_attendees u = None \<and> upd_calendar_check_result u = None)
   \<and> (run_node env CallTool st = Inr (n, st') \<longrightarrow>
      summary st' = summary st \<and> start_time st' = start_time st \<and> end_time st' = end_time st \<and>
      attendees st' = attendees st \<and> calendar_check_result st' = calendar_check_result st)"
proof (intro conjI impI)
  assume "call_tool ex st = Inr u"
  from call_tool_update_form[OF this] obtain outs and st1 :: agent_state where
    u: "u = no_update\<lparr>upd_messages := Some outs, upd_action_needed := Some (action_needed st1)\<rparr>"
    by blast
  show "upd_messages u \<noteq> None" "upd_action_needed u \<noteq> None" "upd_summary u = None"
    "upd_start_time u = None" "upd_end_time u = None" "upd_attendees u = None"
    "upd_calendar_check_result u = None"
    by (simp_all add: u no_update_def)
next
  assume "run_node env CallTool st = Inr (n, st')"
  then obtain u where u: "call_tool (tool_executor env) st = Inr u" and st': "st' = apply_update st u"
    by (auto simp: and_then_def split: sum.splits)
  from call_tool_update_form[OF u] obtain outs and st1 :: agent_state where
    "u = no_update\<lparr>upd_messages := Some outs, upd_action_needed := Some (action_needed st1)\<rparr>"
    by blast
  with st' have st'': "st' = st\<lparr>messages := messages st @ outs, action_needed := action_needed st1\<rparr>"
    by (simp add: apply_tool_update)
  show "summary st' = summary st" "start_time st' = start_time st" "end_time st' = end_time st"
    "attendees st' = attendees st" "calendar_check_result st' = calendar_check_result st"
    by (simp_all add: st'')
qed

theorem call_tool_frame_witness:
  "call_tool reporting_executor
     ((user_state [HumanMessage ''Is 10 to 11 free?'' Map.empty,
                   AIMessage [] [''tool_calls'' \<mapsto> [check_call]]])\<lparr>summary := Some ''Call''\<rparr>)
     = Inr (no_update
              \<lparr>upd_messages :=
                 Some [ToolMessage ''call_1'' (json_dumps ''The calendar is free during this time.'')],
               upd_action_needed := Some (Some ''propose_slots'')\<rparr>)
   \<and> upd_calendar_check_result
        (no_update
           \<lparr>upd_messages :=
              Some [ToolMessage ''call_1'' (json_dumps ''The calendar is free during this time.'')],
            upd_action_needed := Some (Some ''propose_slots'')\<rparr>) = None
   \<and> run_node \<lparr>llm = check_then_reply, tool_executor = reporting_executor\<rparr> CallTool
        ((user_state [HumanMessage ''Is 10 to 11 free?'' Map.empty,
                      AIMessage [] [''tool_calls'' \<mapsto> [check_call]]])\<lparr>summary := Some ''Call''\<rparr>)
     = Inr (CallModel,
            \<lparr>messages =
               [HumanMessage ''Is 10 to 11 free?'' Map.empty,
                AIMessage [] [''tool_calls'' \<mapsto> [check_call]],
                ToolMessage ''call_1'' (json_dumps ''The calendar is free during this time.'')],
             summary = Some ''Call'', start_time = None, end_time = None, attendees = None,
             calendar_check_result = None, action_needed = Some ''propose_slots''\<rparr>)"
  using call_tool_frame
          [of reporting_executor
              "(user_state [HumanMessage ''Is 10 to 11 free?'' Map.empty,
                   AIMessage [] [''tool_calls'' \<mapsto> [check_call]]])\<lparr>summary := Some ''Call''\<rparr>"
              "no_update
              \<lparr>upd_messages :=
                 Some [ToolMessage ''call_1'' (json_dumps ''The calendar is free during this time.'')],
               upd_action_needed := Some (Some ''propose_slots'')\<rparr>"
              "\<lparr>llm = check_then_reply, tool_executor = reporting_executor\<rparr>"
              CallModel
              "\<lparr>messages =
               [HumanMessage ''Is 10 to 11 free?'' Map.empty,
                AIMessage [] [''tool_calls'' \<mapsto> [check_call]],
                ToolMessage ''call_1'' (json_dumps ''The calendar is free during this time.'')],
             summary = Some ''Call'', start_time = None, end_time = None, attendees = None,
             calendar_check_result = None, action_needed = Some ''propose_slots''\<rparr>"]
  by (simp add: node_eval str_lower_def char_lower_def)

section \<open>Runs of the loop\<close>

lemma scenario_a_run:
  "invoke \<lparr>llm = check_then_reply, tool_executor = raising_executor\<rparr> 3
      (user_state [HumanMessage ''Is 10 to 11 free?'' Map.empty])
   = ([CallModel, CallTool, CallModel],
      Halted
        \<lparr>messages =
           [HumanMessage ''Is 10 to 11 free?'' Map.empty,
            AIMessage [] [''tool_calls'' \<mapsto> [check_call]],
            ToolMessage ''call_1'' (json_dumps ''The calendar is free during this time.''),
            AIMessage ''Yes, you are free then!'' Map.empty],
         summary = None, start_time = None, end_time = None, attendees = None,
         calendar_check_result = None, action_needed = Some ''propose_slots''\<rparr>)"
  by (simp add: invoke_def eval_nat_numeral node_eval check_then_reply_def
      str_lower_def char_lower_def)

text \<open>
  Claim C5. In every state a run returns to the caller, what the run appended to the
  transcript is answered: each assistant message is followed at once by one result
  message for each tool call it requests, carrying the ids of the calls in the order
  of the calls, and then by the next assistant message. When the transcript the caller
  passed in is answered, so is the whole transcript of the returned state.
\<close>

theorem requests_answered_in_order:
  assumes "invoke env fuel st = (tr, Halted st')"
  shows "(\<exists>app. messages st' = messages st @ app \<and> answered app)
         \<and> (answered (messages st) \<longrightarrow> answered (messages st'))"
proof -
  from assms have "run env fuel CallModel st = (tr, Halted st')" by (simp add: invoke_def)
  from run_shape[OF this, of True st'] obtain app where
    app: "messages st' = messages st @ app" "turn_shape True app" by auto
  from turn_shape_answered[of True app] app(2) have "answered app" by simp
  with app(1) answered_append[of "messages st" app] show ?thesis by auto
qed

theorem requests_answered_in_order_witness:
  "invoke \<lparr>llm = check_then_reply, tool_executor = raising_executor\<rparr> 3
      (user_state [HumanMessage ''Is 10 to 11 free?'' Map.empty])
   = ([CallModel, CallTool, CallModel],
      Halted
        \<lparr>messages =
           [HumanMessage ''Is 10 to 11 free?'' Map.empty,
            AIMessage [] [''tool_calls'' \<mapsto> [check_call]],
            ToolMessage ''call_1'' (json_dumps ''The calendar is free during this time.''),
            AIMessage ''Yes, you are free then!'' Map.empty],
         summary = None, start_time = None, end_time = None, attendees = None,
         calendar_check_result = None, action_needed = Some ''propose_slots''\<rparr>)
   \<and> answered
        [AIMessage [] [''tool_calls'' \<mapsto> [check_call]],
         ToolMessage ''call_1'' (json_dumps ''The calendar is free during this time.''),
         AIMessage ''Yes, you are free then!'' Map.empty]
   \<and> answered [HumanMessage ''Is 10 to 11 free?'' Map.empty]
   \<and> answered
        [HumanMessage ''Is 10 to 11 free?'' Map.empty,
         AIMessage [] [''tool_calls'' \<mapsto> [check_call]],
         ToolMessage ''call_1'' (json_dumps ''The calendar is free during this time.''),
         AIMessage ''Yes, you are free then!'' Map.empty]"
  using requests_answered_in_order[OF scenario_a_run] scenario_a_run
  by (simp add: user_state_def)













text \<open>
  Over a whole run the graph never writes the slots of the booking: whatever the
  backend and the tools return, the fields \<^verbatim>\<open>summary\<close>, \<^verbatim>\<open>start_time\<close>,
  \<^verbatim>\<open>end_time\<close>, \<^verbatim>\<open>attendees\<close> and \<^verbatim>\<open>calendar_check_result\<close> of the state at the
  end of the run are those of the input.
\<close>

theorem run_keeps_the_slots:
  assumes "invoke env fuel st = (tr, out)" and "out = Halted st' \<or> out = OutOfFuel st'"
  shows "summary st' = summary st \<and> start_time st' = start_time st \<and>
         end_time st' = end_time st \<and> attendees st' = attendees st \<and>
         calendar_check_result st' = calendar_check_result st"
  using assms run_frame[of env fuel CallModel st tr out st'] by (simp add: invoke_def)

theorem run_keeps_the_slots_witness:
  "invoke \<lparr>llm = check_then_reply, tool_executor = raising_executor\<rparr> 3
      (user_state [HumanMessage ''Is 10 to 11 free?'' Map.empty])
   = ([CallModel, CallTool, CallModel],
      Halted
        \<lparr>messages =
           [HumanMessage ''Is 10 to 11 free?'' Map.empty,
            AIMessage [] [''tool_calls'' \<mapsto> [check_call]],
            ToolMessage ''call_1'' (json_dumps ''The calendar is free during this time.''),
            AIMessage ''Yes, you are free then!'' Map.empty],
         summary = None, start_time = None, end_time = None, attendees = None,
         calendar_check_result = None, action_needed = Some ''propose_slots''\<rparr>)
   \<and> calendar_check_result (user_state [HumanMessage ''Is 10 to 11 free?'' Map.empty]) = None"
  using run_keeps_the_slots[OF scenario_a_run] scenario_a_run
  by (simp add: user_state_def)

section \<open>Results of a batch of tool calls\<close>



text \<open>
  Claim C2 at a concrete input: the last message requests the availability check and
  the tool answers that the calendar is free. Inside the node the copy of the state gets
  the result in \<^verbatim>\<open>calendar_check_result\<close> and \<^verbatim>\<open>propose_slots\<close> in
  \<^verbatim>\<open>action_needed\<close>; the update the node returns has \<^verbatim>\<open>action_needed\<close> only, so
  after the execution step the kept state has \<^verbatim>\<open>action_needed\<close> set and
  \<^verbatim>\<open>calendar_check_result\<close> still \<^verbatim>\<open>None\<close>.
\<close>

theorem availability_result_is_not_kept:
  "call_tool_body reporting_executor
     (user_state [HumanMessage ''Is 10 to 11 free?'' Map.empty,
                  AIMessage [] [''tool_calls'' \<mapsto> [check_call]]])
     = Inr ([ToolMessage ''call_1'' (json_dumps ''The calendar is free during this time.'')],
            \<lparr>messages =
               [HumanMessage ''Is 10 to 11 free?'' Map.empty,
                AIMessage [] [''tool_calls'' \<mapsto> [check_call]]],
             summary = None, start_time = None, end_time = None, attendees = None,
             calendar_check_result = Some ''The calendar is free during this time.'',
             action_needed = Some ''propose_slots''\<rparr>)
   \<and> run_node \<lparr>llm = check_then_reply, tool_executor = reporting_executor\<rparr> CallTool
        (user_state [HumanMessage ''Is 10 to 11 free?'' Map.empty,
                     AIMessage [] [''tool_calls'' \<mapsto> [check_call]]])
     = Inr (CallModel,
            \<lparr>messages =
               [HumanMessage ''Is 10 to 11 free?'' Map.empty,
                AIMessage [] [''tool_calls'' \<mapsto> [check_call]],
                ToolMessage ''call_1'' (json_dumps ''The calendar is free during this time.'')],
             summary = None, start_time = None, end_time = None, attendees = None,
             calendar_check_result = None,
             action_needed = Some ''propose_slots''\<rparr>)"
  by (simp add: node_eval str_lower_def char_lower_def)

section \<open>Results of the calendar tools\<close>

lemmas tool_eval =
  check_calendar_availability_def check_calendar_availability_try_def
  create_google_calendar_event_def create_google_calendar_event_try_def
  except_HttpError_def and_then_def availability_text_def slot_text_def
  reporting_service_def failing_service_def parse_any_def

lemma except_HttpError_cases:
  "except_HttpError body handler =
     (case body of
        Inr v \<Rightarrow> Inr v
      | Inl x \<Rightarrow> (case x of HttpError err \<Rightarrow> Inr (handler err) | _ \<Rightarrow> Inl x))"
  by (simp add: except_HttpError_def split: sum.splits exn.splits)

lemma str_join_member:
  "x \<in> set xs \<Longrightarrow> \<exists>ps ss. str_join sep xs = ps @ x @ ss"
proof (induction sep xs rule: str_join.induct)
  case (1 sep)
  then show ?case by simp
next
  case (2 sep y)
  then have "str_join sep [y] = [] @ x @ []" by simp
  then show ?case by blast
next
  case (3 sep y z zs)
  show ?case
  proof (cases "x = y")
    case True
    then have "str_join sep (y # z # zs) = [] @ x @ (sep @ str_join sep (z # zs))" by simp
    then show ?thesis by blast
  next
    case False
    with "3.prems" have "x \<in> set (z # zs)" by simp
    from "3.IH"[OF this] obtain ps ss where "str_join sep (z # zs) = ps @ x @ ss" by blast
    then have "str_join sep (y # z # zs) = (y @ sep @ ps) @ x @ ss" by simp
    then show ?thesis by blast
  qed
qed

lemma availability_text_lists_slot:
  assumes "sl \<in> set busy_slots"
  shows "sublist (''From '' @ slot_start sl @ '' to '' @ slot_end sl) (availability_text busy_slots)"
proof -
  from assms have ne: "busy_slots \<noteq> []" by auto
  from assms have "slot_text sl \<in> set (map slot_text busy_slots)" by simp
  from str_join_member[OF this, of "'', ''"] obtain ps ss where
    "str_join '', '' (map slot_text busy_slots) = ps @ slot_text sl @ ss" by blast
  with ne have "availability_text busy_slots =
      (''The calendar is busy during the following times: '' @ ps) @ slot_text sl
        @ (ss @ ''. Please suggest a different time.'')"
    by (simp add: availability_text_def)
  then have "sublist (slot_text sl) (availability_text busy_slots)"
    unfolding sublist_def by blast
  then show ?thesis by (simp add: slot_text_def)
qed

lemma error_text_not_free:
  "str_contains ''free''
     (str_lower ''An error occurred while checking availability: 503 backend error'') = False"
  by code_simp

lemma single_call_step:
  assumes "messages st \<noteq> []" and "requested_tool_calls (last (messages st)) = [tc]"
    and "tool_executor env [tc] = Inr payload"
  shows "run_node env CallTool st =
           Inr (CallModel,
                st\<lparr>messages := messages st @ [ToolMessage (tc_id tc) (json_dumps payload)],
                   action_needed := action_needed (fold_tool_result tc payload st)\<rparr>)"
  using assms
  by (simp add: call_tool_def call_tool_body_def last_message_def and_then_def apply_tool_update)

text \<open>
  Claim C8, as the code has it. Both tools catch \<^verbatim>\<open>HttpError\<close> and nothing else.
  When the body of the \<^verbatim>\<open>try\<close> raises an \<^verbatim>\<open>HttpError\<close>, the tool returns the text
  that describes it; neither tool ever raises an \<^verbatim>\<open>HttpError\<close>. When the body raises
  any other exception, the tool raises that exception. A payload the executor returns,
  the error text included, is appended as a result message, and the decision node runs
  next on the transcript that ends with it.
\<close>

theorem tools_report_HttpError_only:
  "(check_calendar_availability_try g f i s e = Inl (HttpError err) \<longrightarrow>
      check_calendar_availability g f i s e
        = Inr (''An error occurred while checking availability: '' @ err))
   \<and> (create_google_calendar_event_try g summ s e d a = Inl (HttpError err) \<longrightarrow>
      create_google_calendar_event g summ s e d a
        = Inr (''An error occurred while creating the event: '' @ err))
   \<and> (check_calendar_availability_try g f i s e = Inl x \<and> (\<forall>m. x \<noteq> HttpError m) \<longrightarrow>
      check_calendar_availability g f i s e = Inl x)
   \<and> (create_google_calendar_event_try g summ s e d a = Inl x \<and> (\<forall>m. x \<noteq> HttpError m) \<longrightarrow>
      create_google_calendar_event g summ s e d a = Inl x)
   \<and> check_calendar_availability g f i s e \<noteq> Inl (HttpError err)
   \<and> create_google_calendar_event g summ s e d a \<noteq> Inl (HttpError err)
   \<and> (messages st \<noteq> [] \<and> requested_tool_calls (last (messages st)) = [tc] \<and>
       tool_executor env [tc] = Inr payload \<longrightarrow>
      (\<exists>an. run_node env CallTool st =
         Inr (CallModel,
              st\<lparr>messages := messages st @ [ToolMessage (tc_id tc) (json_dumps payload)],
                 action_needed := an\<rparr>)))"
proof -
  have tools:
    "(check_calendar_availability_try g f i s e = Inl (HttpError err) \<longrightarrow>
      check_calendar_availability g f i s e
        = Inr (''An error occurred while checking availability: '' @ err))
   \<and> (create_google_calendar_event_try g summ s e d a = Inl (HttpError err) \<longrightarrow>
      create_google_calendar_event g summ s e d a
        = Inr (''An error occurred while creating the event: '' @ err))
   \<and> (check_calendar_availability_try g f i s e = Inl x \<and> (\<forall>m. x \<noteq> HttpError m) \<longrightarrow>
      check_calendar_availability g f i s e = Inl x)
   \<and> (create_google_calendar_event_try g summ s e d a = Inl x \<and> (\<forall>m. x \<noteq> HttpError m) \<longrightarrow>
      create_google_calendar_event g summ s e d a = Inl x)
   \<and> check_calendar_availability g f i s e \<noteq> Inl (HttpError err)
   \<and> create_google_calendar_event g summ s e d a \<noteq> Inl (HttpError err)"
    by (auto simp: check_calendar_availability_def create_google_calendar_event_def
        except_HttpError_cases split: sum.splits exn.splits)
  have "\<exists>an. run_node env CallTool st =
         Inr (CallModel,
              st\<lparr>messages := messages st @ [ToolMessage (tc_id tc) (json_dumps payload)],
                 action_needed := an\<rparr>)"
    if "messages st \<noteq> [] \<and> requested_tool_calls (last (messages st)) = [tc] \<and>
        tool_executor env [tc] = Inr payload"
    using single_call_step[of st tc env payload] that by blast
  with tools show ?thesis by blast
qed

theorem tools_report_HttpError_only_witness:
  "check_calendar_availability_try (Inr (failing_service (HttpError ''503 backend error'')))
      parse_any (\<lambda>d. d) ''2025-06-29T10:00:00+05:30'' ''2025-06-29T11:00:00+05:30''
     = Inl (HttpError ''503 backend error'')
   \<and> check_calendar_availability (Inr (failing_service (HttpError ''503 backend error'')))
        parse_any (\<lambda>d. d) ''2025-06-29T10:00:00+05:30'' ''2025-06-29T11:00:00+05:30''
     = Inr ''An error occurred while checking availability: 503 backend error''
   \<and> create_google_calendar_event_try (Inr (failing_service (HttpError ''503 backend error'')))
        ''Call'' ''2025-06-29T10:00:00+05:30'' ''2025-06-29T11:00:00+05:30'' [] None
     = Inl (HttpError ''503 backend error'')
   \<and> create_google_calendar_event (Inr (failing_service (HttpError ''503 backend error'')))
        ''Call'' ''2025-06-29T10:00:00+05:30'' ''2025-06-29T11:00:00+05:30'' [] None
     = Inr ''An error occurred while creating the event: 503 backend error''
   \<and> check_calendar_availability (Inr (failing_service (KeyError ''calendars'')))
        parse_any (\<lambda>d. d) ''2025-06-29T10:00:00+05:30'' ''2025-06-29T11:00:00+05:30''
     = Inl (KeyError ''calendars'')
   \<and> create_google_calendar_event (Inr (failing_service (KeyError ''calendars'')))
        ''Call'' ''2025-06-29T10:00:00+05:30'' ''2025-06-29T11:00:00+05:30'' [] None
     = Inl (KeyError ''calendars'')
   \<and> run_node
        \<lparr>llm = check_then_reply,
         tool_executor = (\<lambda>tcs. check_calendar_availability
            (Inr (failing_service (HttpError ''503 backend error''))) parse_any (\<lambda>d. d)
            ''2025-06-29T10:00:00+05:30'' ''2025-06-29T11:00:00+05:30'')\<rparr>
        CallTool
        (user_state [HumanMessage ''Is 10 to 11 free?'' Map.empty,
                     AIMessage [] [''tool_calls'' \<mapsto> [check_call]]])
     = Inr (CallModel,
            \<lparr>messages =
               [HumanMessage ''Is 10 to 11 free?'' Map.empty,
                AIMessage [] [''tool_calls'' \<mapsto> [check_call]],
                ToolMessage ''call_1''
                  (json_dumps ''An error occurred while checking availability: 503 backend error'')],
             summary = None, start_time = None, end_time = None, attendees = None,
             calendar_check_result = None, action_needed = Some ''ask_for_new_time''\<rparr>)"
  using tools_report_HttpError_only
          [of "Inr (failing_service (HttpError ''503 backend error''))" parse_any "\<lambda>d. d"
              "''2025-06-29T10:00:00+05:30''" "''2025-06-29T11:00:00+05:30''"
              "''503 backend error''" "''Call''" "[]" None "HttpError ''503 backend error''"
              "user_state [HumanMessage ''Is 10 to 11 free?'' Map.empty,
                     AIMessage [] [''tool_calls'' \<mapsto> [check_call]]]"
              check_call
              "\<lparr>llm = check_then_reply,
                tool_executor = (\<lambda>tcs. check_calendar_availability
                  (Inr (failing_service (HttpError ''503 backend error''))) parse_any (\<lambda>d. d)
                  ''2025-06-29T10:00:00+05:30'' ''2025-06-29T11:00:00+05:30'')\<rparr>"
              "''An error occurred while checking availability: 503 backend error''"]
        tools_report_HttpError_only
          [of "Inr (failing_service (KeyError ''calendars''))" parse_any "\<lambda>d. d"
              "''2025-06-29T10:00:00+05:30''" "''2025-06-29T11:00:00+05:30''"
              "''503 backend error''" "''Call''" "[]" None "KeyError ''calendars''"]
  by (simp add: node_eval tool_eval error_text_not_free)

text \<open>
  The claim as the specification words it fails for a failure of the calendar client
  that is not an \<^verbatim>\<open>HttpError\<close>, a timeout of the transport for one, and for a failure
  of \<^verbatim>\<open>get_calendar_service\<close>: the exception leaves the tool.
\<close>

theorem other_failure_leaves_the_tool:
  "check_calendar_availability (Inr (failing_service (OtherError ''timed out'')))
      parse_any (\<lambda>d. d) ''2025-06-29T10:00:00+05:30'' ''2025-06-29T11:00:00+05:30''
     = Inl (OtherError ''timed out'')
   \<and> create_google_calendar_event (Inr (failing_service (OtherError ''timed out'')))
        ''Call'' ''2025-06-29T10:00:00+05:30'' ''2025-06-29T11:00:00+05:30'' [] None
     = Inl (OtherError ''timed out'')
   \<and> check_calendar_availability (Inl (OtherError ''credentials.json not found''))
        parse_any (\<lambda>d. d) ''2025-06-29T10:00:00+05:30'' ''2025-06-29T11:00:00+05:30''
     = Inl (OtherError ''credentials.json not found'')"
  by (simp add: tool_eval)

text \<open>
  Claim C9. When the calendar client answers the two requests of the availability
  check and the time strings parse, the tool returns the sentence
  \<^verbatim>\<open>The calendar is free during this time.\<close> if the calendar reports no busy slot, and
  otherwise a different text that lists every busy slot as
  \<^verbatim>\<open>From <start> to <end>\<close>.
\<close>

theorem availability_check_reports_free_or_busy:
  assumes "get_calendar_service = Inr service"
    and "calendars_get service ''primary'' = Inr calendar_info"
    and "fromisoformat start_t = Inr start" and "fromisoformat end_t = Inr end_dt"
    and "freebusy_query service
           \<lparr>timeMin = isoformat start, timeMax = isoformat end_dt,
            timeZone = (case calendar_info ''timeZone'' of None \<Rightarrow> ''UTC'' | Some z \<Rightarrow> z),
            items = [''primary'']\<rparr> = Inr response"
    and "response ''primary'' = Some busy_slots"
  shows "\<exists>r. check_calendar_availability get_calendar_service fromisoformat isoformat start_t end_t
               = Inr r
           \<and> (busy_slots = [] \<longrightarrow> r = ''The calendar is free during this time.'')
           \<and> (busy_slots \<noteq> [] \<longrightarrow>
                r = ''The calendar is busy during the following times: ''
                    @ str_join '', '' (map slot_text busy_slots)
                    @ ''. Please suggest a different time.''
                \<and> r \<noteq> ''The calendar is free during this time.''
                \<and> (\<forall>sl\<in>set busy_slots.
                      sublist (''From '' @ slot_start sl @ '' to '' @ slot_end sl) r))"
proof -
  from assms
  have r: "check_calendar_availability get_calendar_service fromisoformat isoformat start_t end_t
            = Inr (availability_text busy_slots)"
    by (simp add: check_calendar_availability_def check_calendar_availability_try_def
        and_then_def except_HttpError_def)
  have "availability_text busy_slots = ''The calendar is free during this time.''"
    if "busy_slots = []"
    using that by (simp add: availability_text_def)
  moreover have "availability_text busy_slots =
        ''The calendar is busy during the following times: ''
          @ str_join '', '' (map slot_text busy_slots) @ ''. Please suggest a different time.''"
    "availability_text busy_slots \<noteq> ''The calendar is free during this time.''"
    if "busy_slots \<noteq> []"
    using that by (simp_all add: availability_text_def)
  moreover have "\<forall>sl\<in>set busy_slots.
      sublist (''From '' @ slot_start sl @ '' to '' @ slot_end sl) (availability_text busy_slots)"
    using availability_text_lists_slot by blast
  ultimately show ?thesis using r by blast
qed

theorem availability_check_reports_free_or_busy_witness:
  "check_calendar_availability (Inr (reporting_service [])) parse_any (\<lambda>d. d)
      ''2025-06-29T10:00:00+05:30'' ''2025-06-29T11:00:00+05:30''
     = Inr ''The calendar is free during this time.''
   \<and> check_calendar_availability
        (Inr (reporting_service
               [\<lparr>slot_start = ''2025-06-29T10:00:00Z'', slot_end = ''2025-06-29T10:30:00Z''\<rparr>,
                \<lparr>slot_start = ''2025-06-29T10:45:00Z'', slot_end = ''2025-06-29T11:00:00Z''\<rparr>]))
        parse_any (\<lambda>d. d) ''2025-06-29T10:00:00+05:30'' ''2025-06-29T11:00:00+05:30''
     = Inr ''The calendar is busy during the following times: From 2025-06-29T10:00:00Z to 2025-06-29T10:30:00Z, From 2025-06-29T10:45:00Z to 2025-06-29T11:00:00Z. Please suggest a different time.''
   \<and> sublist ''From 2025-06-29T10:45:00Z to 2025-06-29T11:00:00Z''
        ''The calendar is busy during the following times: From 2025-06-29T10:00:00Z to 2025-06-29T10:30:00Z, From 2025-06-29T10:45:00Z to 2025-06-29T11:00:00Z. Please suggest a different time.''"
  using availability_check_reports_free_or_busy
          [of "Inr (reporting_service [])" "reporting_service []"
              "[''timeZone'' \<mapsto> ''Asia/Kolkata'']" parse_any
              "''2025-06-29T10:00:00+05:30''" "''2025-06-29T10:00:00+05:30''"
              "''2025-06-29T11:00:00+05:30''" "''2025-06-29T11:00:00+05:30''"
              "\<lambda>d. d" "[''primary'' \<mapsto> []]" "[]"]
        availability_check_reports_free_or_busy
          [of "Inr (reporting_service
               [\<lparr>slot_start = ''2025-06-29T10:00:00Z'', slot_end = ''2025-06-29T10:30:00Z''\<rparr>,
                \<lparr>slot_start = ''2025-06-29T10:45:00Z'', slot_end = ''2025-06-29T11:00:00Z''\<rparr>])"
              "reporting_service
               [\<lparr>slot_start = ''2025-06-29T10:00:00Z'', slot_end = ''2025-06-29T10:30:00Z''\<rparr>,
                \<lparr>slot_start = ''2025-06-29T10:45:00Z'', slot_end = ''2025-06-29T11:00:00Z''\<rparr>]"
              "[''timeZone'' \<mapsto> ''Asia/Kolkata'']" parse_any
              "''2025-06-29T10:00:00+05:30''" "''2025-06-29T10:00:00+05:30''"
              "''2025-06-29T11:00:00+05:30''" "''2025-06-29T11:00:00+05:30''"
              "\<lambda>d. d"
              "[''primary'' \<mapsto>
               [\<lparr>slot_start = ''2025-06-29T10:00:00Z'', slot_end = ''2025-06-29T10:30:00Z''\<rparr>,
                \<lparr>slot_start = ''2025-06-29T10:45:00Z'', slot_end = ''2025-06-29T11:00:00Z''\<rparr>]]"
              "[\<lparr>slot_start = ''2025-06-29T10:00:00Z'', slot_end = ''2025-06-29T10:30:00Z''\<rparr>,
                \<lparr>slot_start = ''2025-06-29T10:45:00Z'', slot_end = ''2025-06-29T11:00:00Z''\<rparr>]"]
  by (simp add: reporting_service_def parse_any_def slot_text_def)

section \<open>The next action after an availability check\<close>

lemma str_contains_sublist: "str_contains needle hay \<longleftrightarrow> sublist needle hay"
  by (induction hay) (simp_all add: sublist_Cons_right)

lemma str_lower_append: "str_lower (xs @ ys) = str_lower xs @ str_lower ys"
  by (simp add: str_lower_def)

lemma str_lower_join:
  "str_lower (str_join sep xs) = str_join (str_lower sep) (map str_lower xs)"
proof (induction sep xs rule: str_join.induct)
  case (1 sep)
  then show ?case by (simp add: str_lower_def)
next
  case (2 sep x)
  then show ?case by simp
next
  case (3 sep x y ys)
  then show ?case by (simp add: str_lower_append)
qed

lemma join_without_char:
  "c \<notin> set sep \<Longrightarrow> \<forall>x\<in>set xs. c \<notin> set x \<Longrightarrow> c \<notin> set (str_join sep xs)"
  by (induction sep xs rule: str_join.induct) auto

lemma free_needs_ee: "sublist ''free'' t \<Longrightarrow> sublist ''ee'' t"
proof -
  assume "sublist ''free'' t"
  then obtain ps ss where "t = ps @ ''free'' @ ss" by (auto simp: sublist_def)
  then have "t = (ps @ ''fr'') @ ''ee'' @ ss" by simp
  then show ?thesis unfolding sublist_def by blast
qed

lemma no_e_no_ee: "CHR ''e'' \<notin> set xs \<Longrightarrow> \<not> sublist ''ee'' xs"
  using set_mono_sublist[of "''ee''" xs] by auto

lemma pair_split:
  assumes "[x, y] = xs1 @ xs2"
  shows "(xs1 = [] \<and> xs2 = [x, y]) \<or> (xs1 = [x] \<and> xs2 = [y]) \<or> (xs1 = [x, y] \<and> xs2 = [])"
  using assms by (auto simp: Cons_eq_append_conv)

lemma ee_split:
  assumes "''ee'' = xs1 @ xs2"
  shows "(xs1 = [] \<and> xs2 = ''ee'') \<or> (xs1 = ''e'' \<and> xs2 = ''e'') \<or> (xs1 = ''ee'' \<and> xs2 = [])"
  using assms by (rule pair_split)

lemma ee_in_append:
  assumes "sublist ''ee'' (xs @ ys)"
  shows "sublist ''ee'' xs \<or> sublist ''ee'' ys \<or> (suffix ''e'' xs \<and> prefix ''e'' ys)"
proof -
  from assms have "sublist ''ee'' xs \<or> sublist ''ee'' ys \<or>
      (\<exists>xs1 xs2. ''ee'' = xs1 @ xs2 \<and> suffix xs1 xs \<and> prefix xs2 ys)"
    by (simp only: sublist_append)
  then show ?thesis
  proof (elim disjE exE conjE)
    fix xs1 xs2 assume s: "''ee'' = xs1 @ xs2" and su: "suffix xs1 xs" and pr: "prefix xs2 ys"
    from ee_split[OF s] show ?thesis
    proof (elim disjE conjE)
      assume "xs1 = []" "xs2 = ''ee''"
      with pr have "sublist ''ee'' ys" by (simp only: prefix_imp_sublist)
      then show ?thesis by blast
    next
      assume "xs1 = ''e''" "xs2 = ''e''"
      with su pr show ?thesis by blast
    next
      assume "xs1 = ''ee''" "xs2 = []"
      with su have "sublist ''ee'' xs" by (simp only: suffix_imp_sublist)
      then show ?thesis by blast
    qed
  qed blast+
qed

lemma lower_busy_head:
  "str_lower ''The calendar is busy during the following times: ''
     = ''the calendar is busy during the following times: ''"
  by code_simp

lemma lower_busy_tail:
  "str_lower ''. Please suggest a different time.'' = ''. please suggest a different time.''"
  by code_simp

lemma lower_from: "str_lower ''From '' = ''from ''"
  by code_simp

lemma lower_to: "str_lower '' to '' = '' to ''"
  by code_simp

lemma lower_comma: "str_lower '', '' = '', ''"
  by code_simp

lemma free_text_is_free:
  "str_contains ''free'' (str_lower ''The calendar is free during this time.'')"
  by code_simp

lemma head_no_ee: "\<not> str_contains ''ee'' ''the calendar is busy during the following times: ''"
  by code_simp

lemma tail_no_ee: "\<not> str_contains ''ee'' ''. please suggest a different time.''"
  by code_simp

lemma suffix_singleton_last: "suffix [c] ys \<Longrightarrow> last ys = c"
  by (auto simp: suffix_def)

lemma head_no_e_end: "\<not> suffix ''e'' ''the calendar is busy during the following times: ''"
proof
  assume "suffix ''e'' ''the calendar is busy during the following times: ''"
  then have "last ''the calendar is busy during the following times: '' = CHR ''e''"
    by (rule suffix_singleton_last)
  then show False by simp
qed

lemma tail_no_e_start: "\<not> prefix ''e'' ''. please suggest a different time.''"
  by simp

lemma busy_text_lower:
  assumes "busy_slots \<noteq> []"
  shows "str_lower (availability_text busy_slots) =
           ''the calendar is busy during the following times: ''
           @ str_join '', '' (map str_lower (map slot_text busy_slots))
           @ ''. please suggest a different time.''"
proof -
  from assms have "availability_text busy_slots =
      ''The calendar is busy during the following times: ''
        @ (str_join '', '' (map slot_text busy_slots) @ ''. Please suggest a different time.'')"
    unfolding availability_text_def by (simp only: if_False)
  then have "str_lower (availability_text busy_slots) =
      str_lower ''The calendar is busy during the following times: ''
        @ (str_lower (str_join '', '' (map slot_text busy_slots))
           @ str_lower ''. Please suggest a different time.'')"
    by (simp only: str_lower_append)
  then show ?thesis
    by (simp only: lower_busy_head lower_busy_tail lower_comma str_lower_join)
qed

lemma slot_text_lower:
  "str_lower (slot_text sl) = ''from '' @ str_lower (slot_start sl) @ '' to '' @ str_lower (slot_end sl)"
  unfolding slot_text_def by (simp only: str_lower_append lower_from lower_to)

lemma busy_text_is_not_free:
  assumes ne: "busy_slots \<noteq> []"
    and ts: "\<forall>sl\<in>set busy_slots. CHR ''e'' \<notin> set (str_lower (slot_start sl)) \<and>
                                 CHR ''e'' \<notin> set (str_lower (slot_end sl))"
  shows "\<not> str_contains ''free'' (str_lower (availability_text busy_slots))"
proof
  let ?P = "''the calendar is busy during the following times: ''"
  let ?S = "''. please suggest a different time.''"
  let ?J = "str_join '', '' (map str_lower (map slot_text busy_slots))"
  assume "str_contains ''free'' (str_lower (availability_text busy_slots))"
  then have "sublist ''ee'' (str_lower (availability_text busy_slots))"
    by (simp only: str_contains_sublist free_needs_ee)
  then have ee: "sublist ''ee'' (?P @ ?J @ ?S)"
    by (simp only: busy_text_lower[OF ne])
  have "\<forall>x\<in>set (map str_lower (map slot_text busy_slots)). CHR ''e'' \<notin> set x"
  proof
    fix x assume "x \<in> set (map str_lower (map slot_text busy_slots))"
    then obtain sl where sl: "sl \<in> set busy_slots" and x: "x = str_lower (slot_text sl)" by auto
    from ts sl have "CHR ''e'' \<notin> set (str_lower (slot_start sl))"
      "CHR ''e'' \<notin> set (str_lower (slot_end sl))" by auto
    then show "CHR ''e'' \<notin> set x" unfolding x slot_text_lower by simp
  qed
  moreover have "CHR ''e'' \<notin> set '', ''" by simp
  ultimately have noe: "CHR ''e'' \<notin> set ?J" by (rule join_without_char[rotated])
  have J1: "\<not> sublist ''ee'' ?J" using noe by (rule no_e_no_ee)
  have J2: "\<not> suffix ''e'' ?J" using noe set_mono_suffix[of "''e''" ?J] by auto
  have J3: "\<not> prefix ''e'' ?J" using noe set_mono_prefix[of "''e''" ?J] by auto
  have P1: "\<not> sublist ''ee'' ?P" using head_no_ee unfolding str_contains_sublist .
  have S1: "\<not> sublist ''ee'' ?S" using tail_no_ee unfolding str_contains_sublist .
  from ee_in_append[OF ee] P1 head_no_e_end have "sublist ''ee'' (?J @ ?S)" by blast
  from ee_in_append[OF this] J1 S1 J2 show False by blast
qed

lemma timestamps_without_e:
  "CHR ''e'' \<notin> set (str_lower ''2025-06-29T10:00:00Z'')"
  "CHR ''e'' \<notin> set (str_lower ''2025-06-29T10:30:00Z'')"
  by code_simp+

text \<open>
  On the texts the availability tool builds, the test \<^verbatim>\<open>'free' in result.lower()\<close> of
  the execution node tells the two apart: after a batch of one availability check whose
  payload is the text for the reported busy slots, \<^verbatim>\<open>action_needed\<close> is
  \<^verbatim>\<open>propose_slots\<close> when no slot is busy and \<^verbatim>\<open>ask_for_new_time\<close> otherwise, for
  slot times without the letter e (as timestamps are).
\<close>

theorem availability_text_sets_action_needed:
  assumes "messages st \<noteq> []"
    and "requested_tool_calls (last (messages st)) = [tc]"
    and "fn_name tc = ''check_availability''"
    and "tool_executor env [tc] = Inr (availability_text busy_slots)"
    and "\<forall>sl\<in>set busy_slots. CHR ''e'' \<notin> set (str_lower (slot_start sl)) \<and>
                               CHR ''e'' \<notin> set (str_lower (slot_end sl))"
  shows "\<exists>st'. run_node env CallTool st = Inr (CallModel, st') \<and>
               action_needed st' =
                 Some (if busy_slots = [] then ''propose_slots'' else ''ask_for_new_time'')"
proof -
  have "str_contains ''free'' (str_lower (availability_text busy_slots)) \<longleftrightarrow> busy_slots = []"
  proof (cases "busy_slots = []")
    case True
    then have "availability_text busy_slots = ''The calendar is free during this time.''"
      by (simp add: availability_text_def)
    with True free_text_is_free show ?thesis by simp
  next
    case False
    with busy_text_is_not_free[OF False assms(5)] show ?thesis by simp
  qed
  with assms(3)
  have "action_needed (fold_tool_result tc (availability_text busy_slots) st) =
          Some (if busy_slots = [] then ''propose_slots'' else ''ask_for_new_time'')"
    by (simp add: fold_tool_result_def)
  with single_call_step[OF assms(1,2,4)] show ?thesis by simp
qed

theorem availability_text_sets_action_needed_witness:
  "\<exists>st'. run_node
          \<lparr>llm = check_then_reply,
           tool_executor = (\<lambda>tcs. check_calendar_availability
              (Inr (reporting_service
                     [\<lparr>slot_start = ''2025-06-29T10:00:00Z'', slot_end = ''2025-06-29T10:30:00Z''\<rparr>]))
              parse_any (\<lambda>d. d) ''2025-06-29T10:00:00+05:30'' ''2025-06-29T11:00:00+05:30'')\<rparr>
          CallTool
          (user_state [HumanMessage ''Is 10 to 11 free?'' Map.empty,
                       AIMessage [] [''tool_calls'' \<mapsto> [check_call]]])
        = Inr (CallModel, st')
      \<and> action_needed st' = Some ''ask_for_new_time''"
proof -
  let ?slots = "[\<lparr>slot_start = ''2025-06-29T10:00:00Z'', slot_end = ''2025-06-29T10:30:00Z''\<rparr>]"
  let ?env = "\<lparr>llm = check_then_reply,
           tool_executor = (\<lambda>tcs. check_calendar_availability
              (Inr (reporting_service ?slots))
              parse_any (\<lambda>d. d) ''2025-06-29T10:00:00+05:30'' ''2025-06-29T11:00:00+05:30'')\<rparr>"
  let ?st = "user_state [HumanMessage ''Is 10 to 11 free?'' Map.empty,
                         AIMessage [] [''tool_calls'' \<mapsto> [check_call]]]"
  have h1: "messages ?st \<noteq> []" by (simp add: user_state_def)
  have h2: "requested_tool_calls (last (messages ?st)) = [check_call]"
    by (simp add: user_state_def requested_tool_calls_def)
  have h3: "fn_name check_call = ''check_availability''" by (simp add: check_call_def)
  have h4: "tool_executor ?env [check_call] = Inr (availability_text ?slots)"
    by (simp add: check_calendar_availability_def check_calendar_availability_try_def
        and_then_def except_HttpError_def reporting_service_def parse_any_def)
  have h5: "\<forall>sl\<in>set ?slots. CHR ''e'' \<notin> set (str_lower (slot_start sl)) \<and>
                               CHR ''e'' \<notin> set (str_lower (slot_end sl))"
    using timestamps_without_e by simp
  from availability_text_sets_action_needed[OF h1 h2 h3 h4 h5] show ?thesis by simp
qed

end
